theory Spec2Isabelle
  imports Main "HOL-Library.Monad_Syntax"
begin

unbundle bit_operations_syntax

section \<open>C strings\<close>

text \<open>
  A \<^verbatim>\<open>char\<close> buffer is modelled by the list of the characters written to it. The C
  string held in a buffer ends at its first NUL byte, so every C library call that reads a
  string (\<^verbatim>\<open>strlen\<close>, \<^verbatim>\<open>strcmp\<close>, \<^verbatim>\<open>strncpy\<close>,
  \<^verbatim>\<open>strcpy\<close>, the \<^verbatim>\<open>%s\<close> of \<^verbatim>\<open>snprintf\<close>) reads \<open>c_str\<close> of the buffer.
\<close>

definition c_str :: "string \<Rightarrow> string" where
  "c_str s = takeWhile (\<lambda>c. c \<noteq> CHR 0x00) s"

text \<open>\<^verbatim>\<open>strcmp(a, b) == 0\<close>.\<close>

definition strcmp_eq :: "string \<Rightarrow> string \<Rightarrow> bool" where
  "strcmp_eq a b \<longleftrightarrow> c_str a = c_str b"

text \<open>\<^verbatim>\<open>strncpy(dst, src, n); dst[n] = '\0';\<close>: the string left in \<^verbatim>\<open>dst\<close>.\<close>

definition strncpy :: "string \<Rightarrow> nat \<Rightarrow> string" where
  "strncpy src n = take n (c_str src)"

definition MAX_TOKEN_LEN :: nat where
  "MAX_TOKEN_LEN = 256"

section \<open>Type descriptors (parser.h, parser.c)\<close>

datatype data_type_t =
    TYPE_VOID | TYPE_CHAR | TYPE_SHORT | TYPE_INT | TYPE_LONG | TYPE_FLOAT | TYPE_DOUBLE
  | TYPE_POINTER | TYPE_ARRAY | TYPE_STRUCT | TYPE_UNION | TYPE_ENUM | TYPE_FUNCTION
  | TYPE_PROCESS | TYPE_SEMAPHORE | TYPE_PID | TYPE_UNKNOWN

text \<open>
  \<^verbatim>\<open>type_info_t\<close>. \<open>array_sizes\<close> holds the first \<^verbatim>\<open>array_dims\<close> entries of the C array
  (so \<^verbatim>\<open>array_dims\<close> is its length). The fields \<^verbatim>\<open>struct_name\<close>, \<^verbatim>\<open>return_type\<close>,
  \<^verbatim>\<open>num_params\<close> and \<^verbatim>\<open>param_types\<close> are zero-filled by \<^verbatim>\<open>type_create\<close> and never
  written afterwards; they are left out. A \<^verbatim>\<open>type_info_t *\<close> that may be NULL is a
  \<open>type_info_t option\<close>.
\<close>

datatype type_info_t =
  Type_info (base_type: data_type_t) (qualifiers: int) (pointer_depth: int)
    (array_sizes: "int list") (pointed_type: "type_info_t option")

definition MAX_ARRAY_DIMS :: nat where
  "MAX_ARRAY_DIMS = 8"

text \<open>The qualifier bits of \<^verbatim>\<open>type_qualifier_t\<close>; the \<^verbatim>\<open>uint32_t\<close> mask is an \<open>int\<close>
  (only these small bits are ever set).\<close>

definition QUAL_NONE :: int where "QUAL_NONE = 0"
definition QUAL_CONST :: int where "QUAL_CONST = 1"
definition QUAL_VOLATILE :: int where "QUAL_VOLATILE = 2"
definition QUAL_UNSIGNED :: int where "QUAL_UNSIGNED = 4"
definition QUAL_SIGNED :: int where "QUAL_SIGNED = 8"

definition type_create :: "data_type_t \<Rightarrow> type_info_t" where
  "type_create base = Type_info base QUAL_NONE 0 [] None"

definition type_create_pointer :: "type_info_t \<Rightarrow> type_info_t" where
  "type_create_pointer pointed = Type_info TYPE_POINTER QUAL_NONE 1 [] (Some pointed)"

text \<open>\<^verbatim>\<open>type_create_array\<close> copies the element descriptor and appends one dimension
  while fewer than \<open>MAX_ARRAY_DIMS\<close> are in use.\<close>

definition type_create_array :: "type_info_t \<Rightarrow> int \<Rightarrow> type_info_t" where
  "type_create_array element sz =
     (case element of Type_info b q d sizes p \<Rightarrow>
        if length sizes < MAX_ARRAY_DIMS then Type_info b q d (sizes @ [sz]) p
        else Type_info b q d sizes p)"

definition base_size :: "data_type_t \<Rightarrow> int" where
  "base_size b =
     (case b of
        TYPE_VOID \<Rightarrow> 0 | TYPE_CHAR \<Rightarrow> 1 | TYPE_SHORT \<Rightarrow> 2 | TYPE_INT \<Rightarrow> 4
      | TYPE_LONG \<Rightarrow> 8 | TYPE_FLOAT \<Rightarrow> 4 | TYPE_DOUBLE \<Rightarrow> 8 | TYPE_POINTER \<Rightarrow> 4
      | TYPE_PID \<Rightarrow> 4 | TYPE_SEMAPHORE \<Rightarrow> 4 | _ \<Rightarrow> 4)"

text \<open>
  A 32-bit \<^verbatim>\<open>int\<close> result: the low 32 bits, signed. It is the conversion of an
  \<^verbatim>\<open>int64_t\<close> to \<^verbatim>\<open>int32_t\<close>, and what the compiled \<^verbatim>\<open>int\<close> arithmetic
  leaves where a product or a sum leaves the range.
\<close>

definition int32_t_of :: "int \<Rightarrow> int" where
  "int32_t_of v = (v + 2 ^ 31) mod 2 ^ 32 - 2 ^ 31"

text \<open>\<^verbatim>\<open>type_size\<close>: the base size multiplied by every array dimension, each product
  in 32-bit \<^verbatim>\<open>int\<close>; 0 for NULL.\<close>

definition type_size :: "type_info_t option \<Rightarrow> int" where
  "type_size ty =
     (case ty of
        None \<Rightarrow> 0
      | Some t \<Rightarrow>
          foldl (\<lambda>b s. int32_t_of (b * s)) (base_size (base_type t)) (array_sizes t))"

section \<open>Symbol table (symbol_table.h, symbol_table.c)\<close>

datatype symbol_kind_t =
    SYM_VARIABLE | SYM_PARAMETER | SYM_FUNCTION | SYM_PROCESS | SYM_SEMAPHORE
  | SYM_STRUCT | SYM_UNION | SYM_ENUM | SYM_TYPEDEF | SYM_LABEL

text \<open>
  \<^verbatim>\<open>symbol_t\<close>. The \<^verbatim>\<open>next\<close> pointer is the tail of the bucket's list; the
  \<^verbatim>\<open>declaration\<close> pointer is always NULL and is left out.
\<close>

record symbol_t =
  sym_name :: string
  sym_kind :: symbol_kind_t
  sym_type :: "type_info_t option"
  sym_scope_level :: int
  sym_offset :: int
  sym_is_initialized :: bool
  sym_is_used :: bool

text \<open>
  \<^verbatim>\<open>scope_t\<close>. \<open>sc_symbols h\<close> is the chain of bucket \<open>h\<close>, head first; only the
  buckets \<open>h < HASH_TABLE_SIZE\<close> exist in C, and \<open>hash\<close> never yields another index.
  The \<^verbatim>\<open>parent\<close> pointer is kept by the table (below).
\<close>

record scope_t =
  sc_level :: int
  sc_symbols :: "nat \<Rightarrow> symbol_t list"
  sc_symbol_count :: int
  sc_next_offset :: int

text \<open>
  \<^verbatim>\<open>symbol_table_t\<close>. The scopes form a linked stack: \<open>st_current_scope\<close> is
  \<^verbatim>\<open>*current_scope\<close> and \<open>st_ancestors\<close> is the chain reached from it through
  \<^verbatim>\<open>parent\<close>, innermost first. \<^verbatim>\<open>global_scope\<close> is the scope whose parent is NULL, the
  last of the chain, so \<^verbatim>\<open>current_scope == global_scope\<close> holds exactly when
  \<open>st_ancestors\<close> is empty.
\<close>

record symbol_table_t =
  st_current_scope :: scope_t
  st_ancestors :: "scope_t list"
  st_scope_level :: int
  st_had_error :: bool
  st_error_msg :: string

definition HASH_TABLE_SIZE :: nat where
  "HASH_TABLE_SIZE = 128"

text \<open>
  \<^verbatim>\<open>hash\<close>: djb2 over the 32-bit \<^verbatim>\<open>unsigned int\<close> (the wrap-around is the
  \<open>mod 2 ^ 32\<close>), stopping at the terminating NUL. \<^verbatim>\<open>(hash << 5) + hash\<close> is
  \<open>h * 2 ^ 5 + h\<close>. A character is added as its byte value; where \<^verbatim>\<open>char\<close> is signed,
  a byte above 127 is added as that value minus 256, which changes the sum by a multiple
  of 256 and leaves the result modulo 128 the same.
\<close>

fun hash_loop :: "int \<Rightarrow> string \<Rightarrow> int" where
  "hash_loop h [] = h"
| "hash_loop h (c # str) =
     (if c = CHR 0x00 then h
      else hash_loop (((h * 2 ^ 5 + h) + of_char c) mod 2 ^ 32) str)"

definition hash :: "string \<Rightarrow> nat" where
  "hash str = nat (hash_loop 5381 str mod int HASH_TABLE_SIZE)"

definition scope_create :: "int \<Rightarrow> scope_t" where
  "scope_create level =
     \<lparr>sc_level = level, sc_symbols = (\<lambda>_. []), sc_symbol_count = 0, sc_next_offset = 0\<rparr>"

definition symtab_create :: symbol_table_t where
  "symtab_create =
     \<lparr>st_current_scope = scope_create 0, st_ancestors = [], st_scope_level = 0,
      st_had_error = False, st_error_msg = ''''\<rparr>"

definition symtab_enter_scope :: "symbol_table_t \<Rightarrow> symbol_table_t" where
  "symtab_enter_scope t =
     t\<lparr>st_scope_level := st_scope_level t + 1,
       st_current_scope := scope_create (st_scope_level t + 1),
       st_ancestors := st_current_scope t # st_ancestors t\<rparr>"

definition symtab_exit_scope :: "symbol_table_t \<Rightarrow> symbol_table_t" where
  "symtab_exit_scope t =
     (case st_ancestors t of
        [] \<Rightarrow> t
      | parent # rest \<Rightarrow>
          t\<lparr>st_current_scope := parent, st_ancestors := rest,
            st_scope_level := st_scope_level t - 1\<rparr>)"

text \<open>The walk along one bucket's chain, shared by both lookups.\<close>

fun chain_lookup :: "symbol_t list \<Rightarrow> string \<Rightarrow> symbol_t option" where
  "chain_lookup [] name = None"
| "chain_lookup (sy # rest) name =
     (if strcmp_eq (sym_name sy) name then Some sy else chain_lookup rest name)"

definition symtab_lookup_current_scope :: "symbol_table_t \<Rightarrow> string \<Rightarrow> symbol_t option" where
  "symtab_lookup_current_scope t name =
     chain_lookup (sc_symbols (st_current_scope t) (hash name)) name"

definition symtab_exists_current_scope :: "symbol_table_t \<Rightarrow> string \<Rightarrow> bool" where
  "symtab_exists_current_scope t name \<longleftrightarrow> symtab_lookup_current_scope t name \<noteq> None"

text \<open>\<^verbatim>\<open>symtab_lookup\<close>: the current scope first, then each parent in turn.\<close>

fun scopes_lookup :: "scope_t list \<Rightarrow> nat \<Rightarrow> string \<Rightarrow> symbol_t option" where
  "scopes_lookup [] h name = None"
| "scopes_lookup (scope # parents) h name =
     (case chain_lookup (sc_symbols scope h) name of
        Some sy \<Rightarrow> Some sy
      | None \<Rightarrow> scopes_lookup parents h name)"

definition symtab_lookup :: "symbol_table_t \<Rightarrow> string \<Rightarrow> symbol_t option" where
  "symtab_lookup t name =
     scopes_lookup (st_current_scope t # st_ancestors t) (hash name) name"

text \<open>The message \<^verbatim>\<open>snprintf\<close> leaves in the 512-byte \<^verbatim>\<open>error_msg\<close>.\<close>

definition redeclaration_msg :: "string \<Rightarrow> string" where
  "redeclaration_msg name =
     take 511 (''Symbol '' @ [CHR 0x27] @ c_str name @ [CHR 0x27]
               @ '' already declared in current scope'')"

text \<open>
  \<^verbatim>\<open>symtab_insert\<close> returns the new symbol, or NULL (\<open>None\<close>) after recording the
  redeclaration. The table and the name are never NULL at a call site, and the
  allocator (outside the repository's sources) is taken to succeed.
\<close>

definition symtab_insert ::
  "symbol_table_t \<Rightarrow> string \<Rightarrow> symbol_kind_t \<Rightarrow> type_info_t option
     \<Rightarrow> symbol_t option \<times> symbol_table_t" where
  "symtab_insert t name kind ty =
     (if symtab_exists_current_scope t name then
        (None, t\<lparr>st_error_msg := redeclaration_msg name, st_had_error := True\<rparr>)
      else
        let cur = st_current_scope t;
            symbol = \<lparr>sym_name = strncpy name (MAX_TOKEN_LEN - 1), sym_kind = kind,
                      sym_type = ty, sym_scope_level = st_scope_level t,
                      sym_offset = sc_next_offset cur, sym_is_initialized = False,
                      sym_is_used = False\<rparr>;
            cur1 = (if kind = SYM_VARIABLE \<or> kind = SYM_PARAMETER
                    then cur\<lparr>sc_next_offset :=
                           int32_t_of (sc_next_offset cur + type_size ty)\<rparr>
                    else cur);
            h = hash name;
            cur2 = cur1\<lparr>sc_symbols := (sc_symbols cur1)(h := symbol # sc_symbols cur1 h),
                        sc_symbol_count := sc_symbol_count cur1 + 1\<rparr>
        in (Some symbol, t\<lparr>st_current_scope := cur2\<rparr>))"

definition symtab_had_error :: "symbol_table_t \<Rightarrow> bool" where
  "symtab_had_error t = st_had_error t"

text \<open>
  ``A symbol with that name lives in the scope'': some chain of the scope holds a symbol
  whose stored name compares equal to the name.
\<close>

definition scope_declares :: "scope_t \<Rightarrow> string \<Rightarrow> bool" where
  "scope_declares scope name \<longleftrightarrow>
     list_ex (\<lambda>h. list_ex (\<lambda>sy. strcmp_eq (sym_name sy) name) (sc_symbols scope h))
       [0..<HASH_TABLE_SIZE]"

text \<open>The hash table's representation invariant: every symbol sits in the bucket of
  its stored name.\<close>

definition scope_wf :: "scope_t \<Rightarrow> bool" where
  "scope_wf scope \<longleftrightarrow>
     list_all (\<lambda>h. list_all (\<lambda>sy. hash (sym_name sy) = h) (sc_symbols scope h))
       [0..<HASH_TABLE_SIZE]"

section \<open>Lexer (lexer.h, lexer.c)\<close>

text \<open>
  \<^verbatim>\<open>token_type_t\<close>: the enumeration, each constant with its C value.
\<close>

type_synonym token_type_t = int

definition TOKEN_EOF :: token_type_t where "TOKEN_EOF = 0"
definition TOKEN_ERROR :: token_type_t where "TOKEN_ERROR = 1"
definition TOKEN_NUMBER :: token_type_t where "TOKEN_NUMBER = 2"
definition TOKEN_FLOAT :: token_type_t where "TOKEN_FLOAT = 3"
definition TOKEN_STRING :: token_type_t where "TOKEN_STRING = 4"
definition TOKEN_CHAR :: token_type_t where "TOKEN_CHAR = 5"
definition TOKEN_IDENTIFIER :: token_type_t where "TOKEN_IDENTIFIER = 6"
definition TOKEN_PLUS :: token_type_t where "TOKEN_PLUS = 7"
definition TOKEN_MINUS :: token_type_t where "TOKEN_MINUS = 8"
definition TOKEN_MULTIPLY :: token_type_t where "TOKEN_MULTIPLY = 9"
definition TOKEN_DIVIDE :: token_type_t where "TOKEN_DIVIDE = 10"
definition TOKEN_MODULO :: token_type_t where "TOKEN_MODULO = 11"
definition TOKEN_INCREMENT :: token_type_t where "TOKEN_INCREMENT = 12"
definition TOKEN_DECREMENT :: token_type_t where "TOKEN_DECREMENT = 13"
definition TOKEN_BIT_AND :: token_type_t where "TOKEN_BIT_AND = 14"
definition TOKEN_BIT_OR :: token_type_t where "TOKEN_BIT_OR = 15"
definition TOKEN_BIT_XOR :: token_type_t where "TOKEN_BIT_XOR = 16"
definition TOKEN_BIT_NOT :: token_type_t where "TOKEN_BIT_NOT = 17"
definition TOKEN_LSHIFT :: token_type_t where "TOKEN_LSHIFT = 18"
definition TOKEN_RSHIFT :: token_type_t where "TOKEN_RSHIFT = 19"
definition TOKEN_EQ :: token_type_t where "TOKEN_EQ = 20"
definition TOKEN_NE :: token_type_t where "TOKEN_NE = 21"
definition TOKEN_LT :: token_type_t where "TOKEN_LT = 22"
definition TOKEN_GT :: token_type_t where "TOKEN_GT = 23"
definition TOKEN_LE :: token_type_t where "TOKEN_LE = 24"
definition TOKEN_GE :: token_type_t where "TOKEN_GE = 25"
definition TOKEN_AND :: token_type_t where "TOKEN_AND = 26"
definition TOKEN_OR :: token_type_t where "TOKEN_OR = 27"
definition TOKEN_NOT :: token_type_t where "TOKEN_NOT = 28"
definition TOKEN_ASSIGN :: token_type_t where "TOKEN_ASSIGN = 29"
definition TOKEN_PLUS_ASSIGN :: token_type_t where "TOKEN_PLUS_ASSIGN = 30"
definition TOKEN_MINUS_ASSIGN :: token_type_t where "TOKEN_MINUS_ASSIGN = 31"
definition TOKEN_MUL_ASSIGN :: token_type_t where "TOKEN_MUL_ASSIGN = 32"
definition TOKEN_DIV_ASSIGN :: token_type_t where "TOKEN_DIV_ASSIGN = 33"
definition TOKEN_MOD_ASSIGN :: token_type_t where "TOKEN_MOD_ASSIGN = 34"
definition TOKEN_AND_ASSIGN :: token_type_t where "TOKEN_AND_ASSIGN = 35"
definition TOKEN_OR_ASSIGN :: token_type_t where "TOKEN_OR_ASSIGN = 36"
definition TOKEN_XOR_ASSIGN :: token_type_t where "TOKEN_XOR_ASSIGN = 37"
definition TOKEN_LSHIFT_ASSIGN :: token_type_t where "TOKEN_LSHIFT_ASSIGN = 38"
definition TOKEN_RSHIFT_ASSIGN :: token_type_t where "TOKEN_RSHIFT_ASSIGN = 39"
definition TOKEN_SEMICOLON :: token_type_t where "TOKEN_SEMICOLON = 40"
definition TOKEN_COLON :: token_type_t where "TOKEN_COLON = 41"
definition TOKEN_COMMA :: token_type_t where "TOKEN_COMMA = 42"
definition TOKEN_DOT :: token_type_t where "TOKEN_DOT = 43"
definition TOKEN_ARROW :: token_type_t where "TOKEN_ARROW = 44"
definition TOKEN_LPAREN :: token_type_t where "TOKEN_LPAREN = 45"
definition TOKEN_RPAREN :: token_type_t where "TOKEN_RPAREN = 46"
definition TOKEN_LBRACE :: token_type_t where "TOKEN_LBRACE = 47"
definition TOKEN_RBRACE :: token_type_t where "TOKEN_RBRACE = 48"
definition TOKEN_LBRACKET :: token_type_t where "TOKEN_LBRACKET = 49"
definition TOKEN_RBRACKET :: token_type_t where "TOKEN_RBRACKET = 50"
definition TOKEN_QUESTION :: token_type_t where "TOKEN_QUESTION = 51"
definition TOKEN_VOID :: token_type_t where "TOKEN_VOID = 52"
definition TOKEN_INT :: token_type_t where "TOKEN_INT = 53"
definition TOKEN_CHAR_TYPE :: token_type_t where "TOKEN_CHAR_TYPE = 54"
definition TOKEN_FLOAT_TYPE :: token_type_t where "TOKEN_FLOAT_TYPE = 55"
definition TOKEN_DOUBLE :: token_type_t where "TOKEN_DOUBLE = 56"
definition TOKEN_LONG :: token_type_t where "TOKEN_LONG = 57"
definition TOKEN_SHORT :: token_type_t where "TOKEN_SHORT = 58"
definition TOKEN_UNSIGNED :: token_type_t where "TOKEN_UNSIGNED = 59"
definition TOKEN_SIGNED :: token_type_t where "TOKEN_SIGNED = 60"
definition TOKEN_CONST :: token_type_t where "TOKEN_CONST = 61"
definition TOKEN_VOLATILE :: token_type_t where "TOKEN_VOLATILE = 62"
definition TOKEN_STATIC :: token_type_t where "TOKEN_STATIC = 63"
definition TOKEN_EXTERN :: token_type_t where "TOKEN_EXTERN = 64"
definition TOKEN_STRUCT :: token_type_t where "TOKEN_STRUCT = 65"
definition TOKEN_UNION :: token_type_t where "TOKEN_UNION = 66"
definition TOKEN_ENUM :: token_type_t where "TOKEN_ENUM = 67"
definition TOKEN_TYPEDEF :: token_type_t where "TOKEN_TYPEDEF = 68"
definition TOKEN_SIZEOF :: token_type_t where "TOKEN_SIZEOF = 69"
definition TOKEN_IF :: token_type_t where "TOKEN_IF = 70"
definition TOKEN_ELSE :: token_type_t where "TOKEN_ELSE = 71"
definition TOKEN_WHILE :: token_type_t where "TOKEN_WHILE = 72"
definition TOKEN_DO :: token_type_t where "TOKEN_DO = 73"
definition TOKEN_FOR :: token_type_t where "TOKEN_FOR = 74"
definition TOKEN_SWITCH :: token_type_t where "TOKEN_SWITCH = 75"
definition TOKEN_CASE :: token_type_t where "TOKEN_CASE = 76"
definition TOKEN_DEFAULT :: token_type_t where "TOKEN_DEFAULT = 77"
definition TOKEN_BREAK :: token_type_t where "TOKEN_BREAK = 78"
definition TOKEN_CONTINUE :: token_type_t where "TOKEN_CONTINUE = 79"
definition TOKEN_RETURN :: token_type_t where "TOKEN_RETURN = 80"
definition TOKEN_GOTO :: token_type_t where "TOKEN_GOTO = 81"
definition TOKEN_PROCESS :: token_type_t where "TOKEN_PROCESS = 82"
definition TOKEN_SYSCALL :: token_type_t where "TOKEN_SYSCALL = 83"
definition TOKEN_INTERRUPT :: token_type_t where "TOKEN_INTERRUPT = 84"
definition TOKEN_SEMAPHORE :: token_type_t where "TOKEN_SEMAPHORE = 85"
definition TOKEN_SIGNAL :: token_type_t where "TOKEN_SIGNAL = 86"
definition TOKEN_WAIT :: token_type_t where "TOKEN_WAIT = 87"
definition TOKEN_CREATE :: token_type_t where "TOKEN_CREATE = 88"
definition TOKEN_RESUME :: token_type_t where "TOKEN_RESUME = 89"
definition TOKEN_SUSPEND :: token_type_t where "TOKEN_SUSPEND = 90"
definition TOKEN_KILL :: token_type_t where "TOKEN_KILL = 91"
definition TOKEN_SLEEP :: token_type_t where "TOKEN_SLEEP = 92"
definition TOKEN_YIELD :: token_type_t where "TOKEN_YIELD = 93"
definition TOKEN_GETPID :: token_type_t where "TOKEN_GETPID = 94"
definition TOKEN_GETPRIO :: token_type_t where "TOKEN_GETPRIO = 95"
definition TOKEN_CHPRIO :: token_type_t where "TOKEN_CHPRIO = 96"
definition TOKEN_TRUE :: token_type_t where "TOKEN_TRUE = 97"
definition TOKEN_FALSE :: token_type_t where "TOKEN_FALSE = 98"
definition TOKEN_NULL_LITERAL :: token_type_t where "TOKEN_NULL_LITERAL = 99"


text \<open>
  The \<^verbatim>\<open>literal\<close> union of a token. \<^verbatim>\<open>atof\<close> is not modelled: a float literal keeps
  its text. \<open>Lit_indeterminate\<close> stands for the union of a token that the code returns
  without ever writing it (string tokens and error tokens).
\<close>

datatype literal_t = Int_lit int | Float_lit string | Char_lit char | Lit_indeterminate

record token_t =
  tok_type :: token_type_t
  tok_value :: string
  tok_literal :: literal_t
  tok_line :: int
  tok_column :: int
  tok_filename :: string

record lexer_t =
  lx_source :: string
  lx_filename :: string
  lx_pos :: int
  lx_line :: int
  lx_column :: int
  lx_length :: int
  lx_has_error :: bool
  lx_error_msg :: string

text \<open>
  The file-scope variables of lexer.c behind \<^verbatim>\<open>lexer_peek_token_ex\<close> and
  \<^verbatim>\<open>lexer_unget_token\<close>. They are shared by every lexer, and static storage starts
  zeroed.
\<close>

record lexer_statics =
  peek_buffer :: token_t
  has_peek :: bool
  unget_buffer :: token_t
  has_unget :: bool

definition zero_token :: token_t where
  "zero_token =
     \<lparr>tok_type = 0, tok_value = '''', tok_literal = Int_lit 0, tok_line = 0, tok_column = 0,
      tok_filename = ''''\<rparr>"

definition statics_init :: lexer_statics where
  "statics_init =
     \<lparr>peek_buffer = zero_token, has_peek = False, unget_buffer = zero_token,
      has_unget = False\<rparr>"

text \<open>The table \<^verbatim>\<open>keywords[]\<close>, without its terminating entry.\<close>

definition keyword_table :: "(string \<times> token_type_t) list" where
  "keyword_table =
     [(''void'', TOKEN_VOID), (''int'', TOKEN_INT), (''char'', TOKEN_CHAR_TYPE),
      (''float'', TOKEN_FLOAT_TYPE), (''double'', TOKEN_DOUBLE),
      (''long'', TOKEN_LONG), (''short'', TOKEN_SHORT),
      (''unsigned'', TOKEN_UNSIGNED), (''signed'', TOKEN_SIGNED),
      (''const'', TOKEN_CONST), (''volatile'', TOKEN_VOLATILE),
      (''static'', TOKEN_STATIC), (''extern'', TOKEN_EXTERN),
      (''struct'', TOKEN_STRUCT), (''union'', TOKEN_UNION), (''enum'', TOKEN_ENUM),
      (''typedef'', TOKEN_TYPEDEF), (''sizeof'', TOKEN_SIZEOF), (''if'', TOKEN_IF),
      (''else'', TOKEN_ELSE), (''while'', TOKEN_WHILE), (''do'', TOKEN_DO),
      (''for'', TOKEN_FOR), (''switch'', TOKEN_SWITCH), (''case'', TOKEN_CASE),
      (''default'', TOKEN_DEFAULT), (''break'', TOKEN_BREAK),
      (''continue'', TOKEN_CONTINUE), (''return'', TOKEN_RETURN),
      (''goto'', TOKEN_GOTO), (''process'', TOKEN_PROCESS),
      (''syscall'', TOKEN_SYSCALL), (''interrupt'', TOKEN_INTERRUPT),
      (''semaphore'', TOKEN_SEMAPHORE), (''signal'', TOKEN_SIGNAL),
      (''wait'', TOKEN_WAIT), (''create'', TOKEN_CREATE), (''resume'', TOKEN_RESUME),
      (''suspend'', TOKEN_SUSPEND), (''kill'', TOKEN_KILL), (''sleep'', TOKEN_SLEEP),
      (''yield'', TOKEN_YIELD), (''getpid'', TOKEN_GETPID),
      (''getprio'', TOKEN_GETPRIO), (''chprio'', TOKEN_CHPRIO),
      (''true'', TOKEN_TRUE), (''false'', TOKEN_FALSE),
      (''null'', TOKEN_NULL_LITERAL), (''NULL'', TOKEN_NULL_LITERAL)]"

subsection \<open>Characters and numbers of the C library\<close>

definition char_code :: "char \<Rightarrow> int" where
  "char_code c = of_char c"

definition isdigit :: "char \<Rightarrow> bool" where
  "isdigit c \<longleftrightarrow> 48 \<le> char_code c \<and> char_code c \<le> 57"

definition isalpha :: "char \<Rightarrow> bool" where
  "isalpha c \<longleftrightarrow> (65 \<le> char_code c \<and> char_code c \<le> 90)
     \<or> (97 \<le> char_code c \<and> char_code c \<le> 122)"

definition isalnum :: "char \<Rightarrow> bool" where
  "isalnum c \<longleftrightarrow> isalpha c \<or> isdigit c"

definition isxdigit :: "char \<Rightarrow> bool" where
  "isxdigit c \<longleftrightarrow> isdigit c \<or> (65 \<le> char_code c \<and> char_code c \<le> 70)
     \<or> (97 \<le> char_code c \<and> char_code c \<le> 102)"

definition hex_digit_value :: "char \<Rightarrow> int" where
  "hex_digit_value c =
     (if 48 \<le> char_code c \<and> char_code c \<le> 57 then char_code c - 48
      else if 97 \<le> char_code c \<and> char_code c \<le> 102 then char_code c - 97 + 10
      else if 65 \<le> char_code c \<and> char_code c \<le> 70 then char_code c - 65 + 10
      else - 1)"

text \<open>
  \<^verbatim>\<open>strtoll\<close> on the text of a number token, which has neither leading blanks nor a
  sign: an optional \<^verbatim>\<open>0x\<close> in base 16, then the longest run of digits of the base;
  \<^verbatim>\<open>LLONG_MAX\<close> when the value does not fit.
\<close>

definition digit_value :: "char \<Rightarrow> int" where
  "digit_value c =
     (if isdigit c then char_code c - 48
      else if 97 \<le> char_code c \<and> char_code c \<le> 122 then char_code c - 97 + 10
      else if 65 \<le> char_code c \<and> char_code c \<le> 90 then char_code c - 65 + 10
      else 36)"

fun strtoll_digits :: "int \<Rightarrow> int \<Rightarrow> string \<Rightarrow> int" where
  "strtoll_digits base acc [] = acc"
| "strtoll_digits base acc (c # cs) =
     (if digit_value c < base then strtoll_digits base (acc * base + digit_value c) cs
      else acc)"

definition strtoll :: "string \<Rightarrow> int \<Rightarrow> int" where
  "strtoll str base =
     (let s = c_str str;
          s1 = (if base = 16 \<and> length s \<ge> 3 \<and> s ! 0 = CHR ''0''
                   \<and> (s ! 1 = CHR ''x'' \<or> s ! 1 = CHR ''X'') \<and> isxdigit (s ! 2)
                then drop 2 s else s)
      in min (strtoll_digits base 0 s1) (2 ^ 63 - 1))"

text \<open>What \<^verbatim>\<open>%d\<close> prints.\<close>

function string_of_nat :: "nat \<Rightarrow> string" where
  "string_of_nat n =
     (if n < 10 then [char_of (48 + n)]
      else string_of_nat (n div 10) @ [char_of (48 + n mod 10)])"
  by pat_completeness auto
termination
  by (relation "measure id") auto

declare string_of_nat.simps [simp del]

definition string_of_int :: "int \<Rightarrow> string" where
  "string_of_int i = (if i < 0 then CHR ''-'' # string_of_nat (nat (- i)) else string_of_nat (nat i))"

subsection \<open>The cursor\<close>

definition lexer_init_ex :: "string \<Rightarrow> string \<Rightarrow> lexer_t" where
  "lexer_init_ex source filename =
     \<lparr>lx_source = source, lx_filename = filename, lx_pos = 0, lx_line = 1, lx_column = 1,
      lx_length = int (length (c_str source)), lx_has_error = False, lx_error_msg = ''''\<rparr>"

definition lexer_current :: "lexer_t \<Rightarrow> char" where
  "lexer_current lexer =
     (if lx_pos lexer \<ge> lx_length lexer then CHR 0x00
      else lx_source lexer ! nat (lx_pos lexer))"

definition lexer_peek :: "lexer_t \<Rightarrow> char" where
  "lexer_peek lexer =
     (if lx_pos lexer + 1 \<ge> lx_length lexer then CHR 0x00
      else lx_source lexer ! nat (lx_pos lexer + 1))"

definition lexer_advance :: "lexer_t \<Rightarrow> lexer_t" where
  "lexer_advance lexer =
     (if lx_pos lexer < lx_length lexer then
        (if lx_source lexer ! nat (lx_pos lexer) = CHR 0x0A
         then lexer\<lparr>lx_line := lx_line lexer + 1, lx_column := 1, lx_pos := lx_pos lexer + 1\<rparr>
         else lexer\<lparr>lx_column := lx_column lexer + 1, lx_pos := lx_pos lexer + 1\<rparr>)
      else lexer)"

text \<open>\<^verbatim>\<open>lexer_error\<close>: the flag, and the message \<^verbatim>\<open>snprintf\<close> leaves in the 256-byte
  buffer.\<close>

definition lexer_error :: "lexer_t \<Rightarrow> string \<Rightarrow> lexer_t" where
  "lexer_error lexer msg =
     lexer\<lparr>lx_has_error := True,
           lx_error_msg := take 255 (c_str (lx_filename lexer) @ '':''
             @ string_of_int (lx_line lexer) @ '':'' @ string_of_int (lx_column lexer)
             @ '': error: '' @ c_str msg)\<rparr>"

definition lexer_has_error :: "lexer_t \<Rightarrow> bool" where
  "lexer_has_error lexer = lx_has_error lexer"

definition lexer_get_error :: "lexer_t \<Rightarrow> string" where
  "lexer_get_error lexer = lx_error_msg lexer"

definition lexer_remaining :: "lexer_t \<Rightarrow> nat" where
  "lexer_remaining lexer = nat (lx_length lexer - lx_pos lexer)"

lemma lexer_advance_remaining:
  "lx_pos lexer < lx_length lexer
     \<Longrightarrow> lexer_remaining (lexer_advance lexer) < lexer_remaining lexer"
  by (simp add: lexer_advance_def lexer_remaining_def)

lemma lexer_advance_remaining_le:
  "lexer_remaining (lexer_advance lexer) \<le> lexer_remaining lexer"
  by (auto simp: lexer_advance_def lexer_remaining_def)

lemma lexer_advance2_remaining:
  "lx_pos lexer < lx_length lexer
     \<Longrightarrow> lexer_remaining (lexer_advance (lexer_advance lexer)) < lexer_remaining lexer"
  using lexer_advance_remaining [of lexer] lexer_advance_remaining_le [of "lexer_advance lexer"]
  by simp

lemma lexer_current_in_range:
  "lexer_current lexer \<noteq> CHR 0x00 \<Longrightarrow> lx_pos lexer < lx_length lexer"
  by (simp add: lexer_current_def split: if_splits)

subsection \<open>Blanks and comments\<close>

function skip_whitespace :: "lexer_t \<Rightarrow> lexer_t" where
  "skip_whitespace lexer =
     (if lx_pos lexer < lx_length lexer then
        (let c = lexer_current lexer
         in if c = CHR '' '' \<or> c = CHR 0x09 \<or> c = CHR 0x0D \<or> c = CHR 0x0A
            then skip_whitespace (lexer_advance lexer)
            else lexer)
      else lexer)"
  by pat_completeness auto
termination
  by (relation "measure lexer_remaining") (auto simp: lexer_advance_remaining)

declare skip_whitespace.simps [simp del]

function skip_line_comment :: "lexer_t \<Rightarrow> lexer_t" where
  "skip_line_comment lexer =
     (if lx_pos lexer < lx_length lexer \<and> lexer_current lexer \<noteq> CHR 0x0A
      then skip_line_comment (lexer_advance lexer)
      else lexer)"
  by pat_completeness auto
termination
  by (relation "measure lexer_remaining") (auto simp: lexer_advance_remaining)

declare skip_line_comment.simps [simp del]

text \<open>The loop of \<^verbatim>\<open>skip_block_comment\<close>, after the two characters that open the
  comment.\<close>

function skip_block_comment_loop :: "lexer_t \<Rightarrow> lexer_t" where
  "skip_block_comment_loop lexer =
     (if lx_pos lexer < lx_length lexer then
        (if lexer_current lexer = CHR ''*'' \<and> lexer_peek lexer = CHR ''/''
         then lexer_advance (lexer_advance lexer)
         else skip_block_comment_loop (lexer_advance lexer))
      else lexer_error lexer ''Unterminated block comment'')"
  by pat_completeness auto
termination
  by (relation "measure lexer_remaining") (auto simp: lexer_advance_remaining)

declare skip_block_comment_loop.simps [simp del]

definition skip_block_comment :: "lexer_t \<Rightarrow> lexer_t" where
  "skip_block_comment lexer = skip_block_comment_loop (lexer_advance (lexer_advance lexer))"

lemma skip_line_comment_remaining:
  "lexer_remaining (skip_line_comment lexer) \<le> lexer_remaining lexer"
proof (induction lexer rule: skip_line_comment.induct)
  case (1 lexer)
  show ?case
  proof (cases "lx_pos lexer < lx_length lexer \<and> lexer_current lexer \<noteq> CHR 0x0A")
    case True
    with 1 have "lexer_remaining (skip_line_comment (lexer_advance lexer))
        \<le> lexer_remaining (lexer_advance lexer)" by simp
    with True lexer_advance_remaining_le [of lexer] show ?thesis
      by (subst skip_line_comment.simps) simp
  next
    case False
    then show ?thesis by (subst skip_line_comment.simps) auto
  qed
qed

lemma skip_line_comment_progress:
  assumes "lx_pos lexer < lx_length lexer" and "lexer_current lexer \<noteq> CHR 0x0A"
  shows "lexer_remaining (skip_line_comment lexer) < lexer_remaining lexer"
proof -
  have "skip_line_comment lexer = skip_line_comment (lexer_advance lexer)"
    using assms by (subst skip_line_comment.simps) simp
  with skip_line_comment_remaining [of "lexer_advance lexer"]
    lexer_advance_remaining [OF assms(1)]
  show ?thesis by simp
qed

lemma lexer_error_remaining: "lexer_remaining (lexer_error lexer msg) = lexer_remaining lexer"
  by (simp add: lexer_error_def lexer_remaining_def)

lemma skip_block_comment_loop_remaining:
  "lexer_remaining (skip_block_comment_loop lexer) \<le> lexer_remaining lexer"
proof (induction lexer rule: skip_block_comment_loop.induct)
  case (1 lexer)
  show ?case
  proof (cases "lx_pos lexer < lx_length lexer")
    case False
    then show ?thesis
      by (subst skip_block_comment_loop.simps) (simp add: lexer_error_remaining)
  next
    case True
    show ?thesis
    proof (cases "lexer_current lexer = CHR ''*'' \<and> lexer_peek lexer = CHR ''/''")
      case stop: True
      have "lexer_remaining (lexer_advance (lexer_advance lexer)) \<le> lexer_remaining lexer"
        using lexer_advance_remaining_le [of lexer]
          lexer_advance_remaining_le [of "lexer_advance lexer"] by simp
      then show ?thesis
        by (subst skip_block_comment_loop.simps) (simp add: True stop)
    next
      case False
      with 1 True have "lexer_remaining (skip_block_comment_loop (lexer_advance lexer))
          \<le> lexer_remaining (lexer_advance lexer)" by simp
      with True False lexer_advance_remaining_le [of lexer] show ?thesis
        by (subst skip_block_comment_loop.simps) auto
    qed
  qed
qed

lemma skip_block_comment_progress:
  assumes "lx_pos lexer < lx_length lexer"
  shows "lexer_remaining (skip_block_comment lexer) < lexer_remaining lexer"
  using skip_block_comment_loop_remaining [of "lexer_advance (lexer_advance lexer)"]
    lexer_advance_remaining_le [of "lexer_advance lexer"] lexer_advance_remaining [OF assms]
  by (simp add: skip_block_comment_def)

function skip_whitespace_and_comments :: "lexer_t \<Rightarrow> lexer_t" where
  "skip_whitespace_and_comments lexer =
     (if lx_pos lexer < lx_length lexer then
        (let c = lexer_current lexer
         in if c = CHR '' '' \<or> c = CHR 0x09 \<or> c = CHR 0x0D \<or> c = CHR 0x0A
            then skip_whitespace_and_comments (lexer_advance lexer)
            else if c = CHR ''/'' \<and> lexer_peek lexer = CHR ''/''
            then skip_whitespace_and_comments (skip_line_comment lexer)
            else if c = CHR ''/'' \<and> lexer_peek lexer = CHR ''*''
            then skip_whitespace_and_comments (skip_block_comment lexer)
            else lexer)
      else lexer)"
  by pat_completeness auto
termination
  by (relation "measure lexer_remaining")
    (auto simp: lexer_advance_remaining skip_line_comment_progress skip_block_comment_progress)

declare skip_whitespace_and_comments.simps [simp del]

subsection \<open>Tokens\<close>

text \<open>\<^verbatim>\<open>make_token\<close> stamps the token with the line and column the lexer is at when
  it is called.\<close>

definition make_token :: "lexer_t \<Rightarrow> token_type_t \<Rightarrow> string \<Rightarrow> token_t" where
  "make_token lexer ty val =
     \<lparr>tok_type = ty, tok_value = strncpy val (MAX_TOKEN_LEN - 1), tok_literal = Int_lit 0,
      tok_line = lx_line lexer, tok_column = lx_column lexer,
      tok_filename = lx_filename lexer\<rparr>"

definition make_error_token :: "lexer_t \<Rightarrow> string \<Rightarrow> token_t \<times> lexer_t" where
  "make_error_token lexer message =
     (\<lparr>tok_type = TOKEN_ERROR, tok_value = strncpy message (MAX_TOKEN_LEN - 1),
       tok_literal = Lit_indeterminate, tok_line = lx_line lexer,
       tok_column = lx_column lexer, tok_filename = lx_filename lexer\<rparr>,
      lexer\<lparr>lx_has_error := True, lx_error_msg := strncpy message 255\<rparr>)"

fun lookup_keyword_from :: "(string \<times> token_type_t) list \<Rightarrow> string \<Rightarrow> token_type_t" where
  "lookup_keyword_from [] identifier = TOKEN_IDENTIFIER"
| "lookup_keyword_from (entry # entries) identifier =
     (if strcmp_eq (fst entry) identifier then snd entry
      else lookup_keyword_from entries identifier)"

definition lookup_keyword :: "string \<Rightarrow> token_type_t" where
  "lookup_keyword identifier = lookup_keyword_from keyword_table identifier"

text \<open>The loop of \<^verbatim>\<open>read_identifier\<close>: \<open>val\<close> is \<^verbatim>\<open>token.value[0..len)\<close>.\<close>

function read_identifier_loop :: "lexer_t \<Rightarrow> string \<Rightarrow> string \<times> lexer_t" where
  "read_identifier_loop lexer val =
     (if lx_pos lexer < lx_length lexer then
        (let c = lexer_current lexer
         in if isalnum c \<or> c = CHR ''_''
            then read_identifier_loop (lexer_advance lexer)
                   (if length val < MAX_TOKEN_LEN - 1 then val @ [c] else val)
            else (val, lexer))
      else (val, lexer))"
  by pat_completeness auto
termination
  by (relation "measure (\<lambda>p. lexer_remaining (fst p))") (auto simp: lexer_advance_remaining)

declare read_identifier_loop.simps [simp del]

definition read_identifier :: "lexer_t \<Rightarrow> token_t \<times> lexer_t" where
  "read_identifier lexer =
     (let r = read_identifier_loop lexer ''''
      in (\<lparr>tok_type = lookup_keyword (fst r), tok_value = fst r, tok_literal = Int_lit 0,
           tok_line = lx_line lexer, tok_column = lx_column lexer,
           tok_filename = lx_filename lexer\<rparr>,
          snd r))"

text \<open>
  The state of \<^verbatim>\<open>read_number\<close>: the text read so far and the flags. The digit loop
  stops at the end of the input or when 255 characters are stored.
\<close>

record number_state =
  ns_lexer :: lexer_t
  ns_value :: string
  ns_is_float :: bool
  ns_is_hex :: bool
  ns_is_binary :: bool
  ns_is_octal :: bool

definition number_take :: "number_state \<Rightarrow> number_state" where
  "number_take st =
     st\<lparr>ns_value := ns_value st @ [lexer_current (ns_lexer st)],
        ns_lexer := lexer_advance (ns_lexer st)\<rparr>"

function read_number_digits :: "number_state \<Rightarrow> number_state" where
  "read_number_digits st =
     (if lx_pos (ns_lexer st) < lx_length (ns_lexer st)
         \<and> length (ns_value st) < MAX_TOKEN_LEN - 1 then
        (let c = lexer_current (ns_lexer st)
         in if ns_is_hex st then
              (if isxdigit c then read_number_digits (number_take st) else st)
            else if ns_is_binary st then
              (if c = CHR ''0'' \<or> c = CHR ''1'' then read_number_digits (number_take st)
               else st)
            else if isdigit c then read_number_digits (number_take st)
            else if c = CHR ''.'' \<and> \<not> ns_is_float st \<and> isdigit (lexer_peek (ns_lexer st))
            then read_number_digits (number_take (st\<lparr>ns_is_float := True\<rparr>))
            else if (c = CHR ''e'' \<or> c = CHR ''E'') \<and> \<not> ns_is_hex st then
              (let st1 = number_take (st\<lparr>ns_is_float := True\<rparr>)
               in if lexer_current (ns_lexer st1) = CHR ''+''
                     \<or> lexer_current (ns_lexer st1) = CHR ''-''
                  then read_number_digits (number_take st1)
                  else read_number_digits st1)
            else st)
      else st)"
  by pat_completeness auto
termination
  by (relation "measure (\<lambda>st. lexer_remaining (ns_lexer st))")
    (auto simp: number_take_def lexer_advance_remaining lexer_advance2_remaining)

declare read_number_digits.simps [simp del]

text \<open>The loop over the suffix letters \<^verbatim>\<open>u U l L f F\<close>.\<close>

function read_number_suffix :: "lexer_t \<Rightarrow> lexer_t" where
  "read_number_suffix lexer =
     (let c = lexer_current lexer
      in if c = CHR ''u'' \<or> c = CHR ''U'' \<or> c = CHR ''l'' \<or> c = CHR ''L''
            \<or> c = CHR ''f'' \<or> c = CHR ''F''
         then read_number_suffix (lexer_advance lexer)
         else lexer)"
  by pat_completeness auto
termination
proof (relation "measure lexer_remaining", goal_cases)
  case 1
  show ?case by simp
next
  case (2 lexer c)
  then have "lexer_current lexer \<noteq> CHR 0x00" by auto
  then have "lx_pos lexer < lx_length lexer" by (rule lexer_current_in_range)
  then show ?case by (simp add: lexer_advance_remaining)
qed

declare read_number_suffix.simps [simp del]

definition read_number :: "lexer_t \<Rightarrow> token_t \<times> lexer_t" where
  "read_number lexer =
     (let st0 = \<lparr>ns_lexer = lexer, ns_value = '''', ns_is_float = False, ns_is_hex = False,
                 ns_is_binary = False, ns_is_octal = False\<rparr>;
          st1 = (if lexer_current lexer = CHR ''0'' then
                   (let s = number_take st0;
                        c = lexer_current (ns_lexer s)
                    in if c = CHR ''x'' \<or> c = CHR ''X''
                       then number_take (s\<lparr>ns_is_hex := True\<rparr>)
                       else if c = CHR ''b'' \<or> c = CHR ''B''
                       then number_take (s\<lparr>ns_is_binary := True\<rparr>)
                       else if isdigit c then s\<lparr>ns_is_octal := True\<rparr>
                       else s)
                 else st0);
          st2 = read_number_digits st1;
          lexer2 = read_number_suffix (ns_lexer st2);
          val = ns_value st2
      in (\<lparr>tok_type = (if ns_is_float st2 then TOKEN_FLOAT else TOKEN_NUMBER),
           tok_value = val,
           tok_literal =
             (if ns_is_float st2 then Float_lit (c_str val)
              else if ns_is_hex st2 then Int_lit (strtoll val 16)
              else if ns_is_binary st2 then Int_lit (strtoll (drop 2 val) 2)
              else if ns_is_octal st2 then Int_lit (strtoll val 8)
              else Int_lit (strtoll val 10)),
           tok_line = lx_line lexer, tok_column = lx_column lexer,
           tok_filename = lx_filename lexer\<rparr>,
          lexer2))"

text \<open>The two hexadecimal digits after \<^verbatim>\<open>\x\<close>: the value and the lexer.\<close>

fun read_hex_escape :: "nat \<Rightarrow> int \<Rightarrow> lexer_t \<Rightarrow> int \<times> lexer_t" where
  "read_hex_escape 0 v lexer = (v, lexer)"
| "read_hex_escape (Suc n) v lexer =
     (if isxdigit (lexer_current lexer)
      then read_hex_escape n (v * 16 + hex_digit_value (lexer_current lexer))
             (lexer_advance lexer)
      else (v, lexer))"

definition read_escape_char :: "lexer_t \<Rightarrow> char \<times> lexer_t" where
  "read_escape_char lexer =
     (let lexer1 = lexer_advance lexer;
          c = lexer_current lexer1;
          lexer2 = lexer_advance lexer1
      in if c = CHR ''n'' then (CHR 0x0A, lexer2)
         else if c = CHR ''t'' then (CHR 0x09, lexer2)
         else if c = CHR ''r'' then (CHR 0x0D, lexer2)
         else if c = CHR ''0'' then (CHR 0x00, lexer2)
         else if c = CHR 0x5C then (CHR 0x5C, lexer2)
         else if c = CHR 0x27 then (CHR 0x27, lexer2)
         else if c = CHR 0x22 then (CHR 0x22, lexer2)
         else if c = CHR ''a'' then (CHR 0x07, lexer2)
         else if c = CHR ''b'' then (CHR 0x08, lexer2)
         else if c = CHR ''f'' then (CHR 0x0C, lexer2)
         else if c = CHR ''v'' then (CHR 0x0B, lexer2)
         else if c = CHR ''x'' then
           (let r = read_hex_escape 2 0 lexer2
            in (char_of (fst r), snd r))
         else (c, lexer2))"

lemma read_hex_escape_remaining:
  "lexer_remaining (snd (read_hex_escape n v lexer)) \<le> lexer_remaining lexer"
proof (induction n arbitrary: v lexer)
  case 0
  show ?case by simp
next
  case (Suc n)
  from Suc [of "v * 16 + hex_digit_value (lexer_current lexer)" "lexer_advance lexer"]
    lexer_advance_remaining_le [of lexer]
  show ?case by simp
qed

lemma read_escape_char_remaining:
  assumes "lx_pos lexer < lx_length lexer"
  shows "lexer_remaining (snd (read_escape_char lexer)) < lexer_remaining lexer"
proof -
  have a: "lexer_remaining (lexer_advance (lexer_advance lexer)) < lexer_remaining lexer"
    using lexer_advance_remaining [OF assms]
      lexer_advance_remaining_le [of "lexer_advance lexer"] by simp
  have b: "lexer_remaining (snd (read_hex_escape 2 0 (lexer_advance (lexer_advance lexer))))
      < lexer_remaining lexer"
    using read_hex_escape_remaining [of 2 0 "lexer_advance (lexer_advance lexer)"] a
    by simp
  from a b show ?thesis
    by (simp add: read_escape_char_def Let_def)
qed

text \<open>
  The loop of \<^verbatim>\<open>read_string\<close>, after the opening quote: the text, the lexer, and whether
  a newline ended the loop (the error return).
\<close>

function read_string_loop :: "lexer_t \<Rightarrow> string \<Rightarrow> string \<times> lexer_t \<times> bool" where
  "read_string_loop lexer val =
     (if lx_pos lexer < lx_length lexer \<and> length val < MAX_TOKEN_LEN - 1 then
        (let c = lexer_current lexer
         in if c = CHR 0x22 then (val, lexer_advance lexer, False)
            else if c = CHR 0x5C then
              read_string_loop (snd (read_escape_char lexer))
                (val @ [fst (read_escape_char lexer)])
            else if c = CHR 0x0A then (val, lexer, True)
            else read_string_loop (lexer_advance lexer) (val @ [c]))
      else (val, lexer, False))"
  by pat_completeness auto
termination
  by (relation "measure (\<lambda>p. lexer_remaining (fst p))")
    (auto simp: lexer_advance_remaining read_escape_char_remaining)

declare read_string_loop.simps [simp del]

definition read_string :: "lexer_t \<Rightarrow> token_t \<times> lexer_t" where
  "read_string lexer =
     (let r = read_string_loop (lexer_advance lexer) '''';
          lexer1 = fst (snd r)
      in if snd (snd r) then make_error_token lexer1 ''Unterminated string literal''
         else (\<lparr>tok_type = TOKEN_STRING, tok_value = fst r, tok_literal = Lit_indeterminate,
                tok_line = lx_line lexer, tok_column = lx_column lexer,
                tok_filename = lx_filename lexer\<rparr>,
               lexer1))"

definition read_char :: "lexer_t \<Rightarrow> token_t \<times> lexer_t" where
  "read_char lexer =
     (let lexer1 = lexer_advance lexer;
          r = (if lexer_current lexer1 = CHR 0x5C then read_escape_char lexer1
               else (lexer_current lexer1, lexer_advance lexer1));
          lexer2 = snd r
      in if lexer_current lexer2 \<noteq> CHR 0x27
         then make_error_token lexer2 ''Unterminated character literal''
         else (\<lparr>tok_type = TOKEN_CHAR, tok_value = [fst r], tok_literal = Char_lit (fst r),
                tok_line = lx_line lexer, tok_column = lx_column lexer,
                tok_filename = lx_filename lexer\<rparr>,
               lexer_advance lexer2))"

text \<open>
  The \<^verbatim>\<open>switch\<close> of \<^verbatim>\<open>lexer_next_token_ex\<close> over the character \<open>c\<close>; the lexer has
  already been advanced past \<open>c\<close>.
\<close>

definition scan_operator :: "char \<Rightarrow> lexer_t \<Rightarrow> token_t \<times> lexer_t" where
  "scan_operator c lexer =
     (let n = lexer_current lexer; lexer1 = lexer_advance lexer
      in if c = CHR ''+'' then
           (if n = CHR ''+'' then (make_token lexer1 TOKEN_INCREMENT ''++'', lexer1)
            else if n = CHR ''='' then (make_token lexer1 TOKEN_PLUS_ASSIGN ''+='', lexer1)
            else (make_token lexer TOKEN_PLUS ''+'', lexer))
         else if c = CHR ''-'' then
           (if n = CHR ''-'' then (make_token lexer1 TOKEN_DECREMENT ''--'', lexer1)
            else if n = CHR ''='' then (make_token lexer1 TOKEN_MINUS_ASSIGN ''-='', lexer1)
            else if n = CHR ''>'' then (make_token lexer1 TOKEN_ARROW ''->'', lexer1)
            else (make_token lexer TOKEN_MINUS ''-'', lexer))
         else if c = CHR ''*'' then
           (if n = CHR ''='' then (make_token lexer1 TOKEN_MUL_ASSIGN ''*='', lexer1)
            else (make_token lexer TOKEN_MULTIPLY ''*'', lexer))
         else if c = CHR ''/'' then
           (if n = CHR ''='' then (make_token lexer1 TOKEN_DIV_ASSIGN ''/='', lexer1)
            else (make_token lexer TOKEN_DIVIDE ''/'', lexer))
         else if c = CHR ''%'' then
           (if n = CHR ''='' then (make_token lexer1 TOKEN_MOD_ASSIGN ''%='', lexer1)
            else (make_token lexer TOKEN_MODULO ''%'', lexer))
         else if c = CHR ''&'' then
           (if n = CHR ''&'' then (make_token lexer1 TOKEN_AND ''&&'', lexer1)
            else if n = CHR ''='' then (make_token lexer1 TOKEN_AND_ASSIGN ''&='', lexer1)
            else (make_token lexer TOKEN_BIT_AND ''&'', lexer))
         else if c = CHR ''|'' then
           (if n = CHR ''|'' then (make_token lexer1 TOKEN_OR ''||'', lexer1)
            else if n = CHR ''='' then (make_token lexer1 TOKEN_OR_ASSIGN ''|='', lexer1)
            else (make_token lexer TOKEN_BIT_OR ''|'', lexer))
         else if c = CHR ''^'' then
           (if n = CHR ''='' then (make_token lexer1 TOKEN_XOR_ASSIGN ''^='', lexer1)
            else (make_token lexer TOKEN_BIT_XOR ''^'', lexer))
         else if c = CHR ''~'' then (make_token lexer TOKEN_BIT_NOT ''~'', lexer)
         else if c = CHR ''!'' then
           (if n = CHR ''='' then (make_token lexer1 TOKEN_NE ''!='', lexer1)
            else (make_token lexer TOKEN_NOT ''!'', lexer))
         else if c = CHR ''='' then
           (if n = CHR ''='' then (make_token lexer1 TOKEN_EQ ''=='', lexer1)
            else (make_token lexer TOKEN_ASSIGN ''='', lexer))
         else if c = CHR ''<'' then
           (if n = CHR ''='' then (make_token lexer1 TOKEN_LE ''<='', lexer1)
            else if n = CHR ''<'' then
              (if lexer_current lexer1 = CHR ''=''
               then (make_token (lexer_advance lexer1) TOKEN_LSHIFT_ASSIGN ''<<='',
                     lexer_advance lexer1)
               else (make_token lexer1 TOKEN_LSHIFT ''<<'', lexer1))
            else (make_token lexer TOKEN_LT ''<'', lexer))
         else if c = CHR ''>'' then
           (if n = CHR ''='' then (make_token lexer1 TOKEN_GE ''>='', lexer1)
            else if n = CHR ''>'' then
              (if lexer_current lexer1 = CHR ''=''
               then (make_token (lexer_advance lexer1) TOKEN_RSHIFT_ASSIGN ''>>='',
                     lexer_advance lexer1)
               else (make_token lexer1 TOKEN_RSHIFT ''>>'', lexer1))
            else (make_token lexer TOKEN_GT ''>'', lexer))
         else if c = CHR '';'' then (make_token lexer TOKEN_SEMICOLON '';'', lexer)
         else if c = CHR '':'' then (make_token lexer TOKEN_COLON '':'', lexer)
         else if c = CHR '','' then (make_token lexer TOKEN_COMMA '','', lexer)
         else if c = CHR ''.'' then
           (if isdigit n
            then read_number (lexer\<lparr>lx_pos := lx_pos lexer - 1,
                                     lx_column := lx_column lexer - 1\<rparr>)
            else (make_token lexer TOKEN_DOT ''.'', lexer))
         else if c = CHR ''('' then (make_token lexer TOKEN_LPAREN ''('', lexer)
         else if c = CHR '')'' then (make_token lexer TOKEN_RPAREN '')'', lexer)
         else if c = CHR ''{'' then (make_token lexer TOKEN_LBRACE ''{'', lexer)
         else if c = CHR ''}'' then (make_token lexer TOKEN_RBRACE ''}'', lexer)
         else if c = CHR ''['' then (make_token lexer TOKEN_LBRACKET ''['', lexer)
         else if c = CHR '']'' then (make_token lexer TOKEN_RBRACKET '']'', lexer)
         else if c = CHR ''?'' then (make_token lexer TOKEN_QUESTION ''?'', lexer)
         else make_error_token lexer
                (take 63 (''Unexpected character: '' @ [CHR 0x27, c, CHR 0x27])))"

text \<open>
  \<^verbatim>\<open>lexer_next_token_ex\<close> below its test of the unget buffer: skip blanks and comments,
  then read one token. \<^verbatim>\<open>start_line\<close> and \<^verbatim>\<open>start_col\<close> are assigned there and never
  read.
\<close>

definition scan_token :: "lexer_t \<Rightarrow> token_t \<times> lexer_t" where
  "scan_token lexer0 =
     (let lexer = skip_whitespace_and_comments lexer0
      in if lx_pos lexer \<ge> lx_length lexer then (make_token lexer TOKEN_EOF '''', lexer)
         else
           (let c = lexer_current lexer
            in if isalpha c \<or> c = CHR ''_'' then read_identifier lexer
               else if isdigit c then read_number lexer
               else if c = CHR 0x22 then read_string lexer
               else if c = CHR 0x27 then read_char lexer
               else scan_operator c (lexer_advance lexer)))"

text \<open>
  \<^verbatim>\<open>lexer_next_token_ex\<close>: the token, the file-scope variables and the lexer after the
  call. Only the unget buffer is consulted; \<^verbatim>\<open>has_peek\<close> and \<^verbatim>\<open>peek_buffer\<close> are neither
  read nor written.
\<close>

definition lexer_next_token_ex ::
  "lexer_statics \<Rightarrow> lexer_t \<Rightarrow> token_t \<times> lexer_statics \<times> lexer_t" where
  "lexer_next_token_ex statics lexer =
     (if has_unget statics
      then (unget_buffer statics, statics\<lparr>has_unget := False\<rparr>, lexer)
      else (fst (scan_token lexer), statics, snd (scan_token lexer)))"

definition lexer_peek_token_ex ::
  "lexer_statics \<Rightarrow> lexer_t \<Rightarrow> token_t \<times> lexer_statics \<times> lexer_t" where
  "lexer_peek_token_ex statics lexer =
     (if \<not> has_peek statics then
        (let r = lexer_next_token_ex statics lexer
         in (fst r, (fst (snd r))\<lparr>peek_buffer := fst r, has_peek := True\<rparr>, snd (snd r)))
      else (peek_buffer statics, statics, lexer))"


text \<open>
  \<^verbatim>\<open>lexer_init\<close>, \<^verbatim>\<open>lexer_next_token\<close> and \<^verbatim>\<open>lexer_peek_token\<close> work on the file-scope
  \<^verbatim>\<open>global_lexer\<close>, here the second component of the state.
\<close>

definition lexer_init :: "lexer_statics \<Rightarrow> string \<Rightarrow> lexer_statics \<times> lexer_t" where
  "lexer_init statics source =
     (statics\<lparr>has_peek := False, has_unget := False\<rparr>, lexer_init_ex source ''<stdin>'')"

definition lexer_next_token ::
  "lexer_statics \<times> lexer_t \<Rightarrow> token_t \<times> lexer_statics \<times> lexer_t" where
  "lexer_next_token s = lexer_next_token_ex (fst s) (snd s)"

definition lexer_peek_token ::
  "lexer_statics \<times> lexer_t \<Rightarrow> token_t \<times> lexer_statics \<times> lexer_t" where
  "lexer_peek_token s = lexer_peek_token_ex (fst s) (snd s)"

section \<open>Abstract syntax tree (parser.h)\<close>

text \<open>
  \<^verbatim>\<open>ast_node_type_t\<close>: the node kinds, by their C enumeration values.
\<close>

type_synonym ast_node_type_t = int

definition NODE_PROGRAM :: ast_node_type_t where "NODE_PROGRAM = 0"
definition NODE_FUNCTION :: ast_node_type_t where "NODE_FUNCTION = 1"
definition NODE_PROCESS :: ast_node_type_t where "NODE_PROCESS = 2"
definition NODE_SYSCALL :: ast_node_type_t where "NODE_SYSCALL = 3"
definition NODE_INTERRUPT :: ast_node_type_t where "NODE_INTERRUPT = 4"
definition NODE_PARAM :: ast_node_type_t where "NODE_PARAM = 5"
definition NODE_BLOCK :: ast_node_type_t where "NODE_BLOCK = 6"
definition NODE_VAR_DECL :: ast_node_type_t where "NODE_VAR_DECL = 7"
definition NODE_ARRAY_DECL :: ast_node_type_t where "NODE_ARRAY_DECL = 8"
definition NODE_STRUCT_DECL :: ast_node_type_t where "NODE_STRUCT_DECL = 9"
definition NODE_UNION_DECL :: ast_node_type_t where "NODE_UNION_DECL = 10"
definition NODE_ENUM_DECL :: ast_node_type_t where "NODE_ENUM_DECL = 11"
definition NODE_TYPEDEF :: ast_node_type_t where "NODE_TYPEDEF = 12"
definition NODE_FIELD :: ast_node_type_t where "NODE_FIELD = 13"
definition NODE_EXPR_STMT :: ast_node_type_t where "NODE_EXPR_STMT = 14"
definition NODE_IF :: ast_node_type_t where "NODE_IF = 15"
definition NODE_WHILE :: ast_node_type_t where "NODE_WHILE = 16"
definition NODE_DO_WHILE :: ast_node_type_t where "NODE_DO_WHILE = 17"
definition NODE_FOR :: ast_node_type_t where "NODE_FOR = 18"
definition NODE_SWITCH :: ast_node_type_t where "NODE_SWITCH = 19"
definition NODE_CASE :: ast_node_type_t where "NODE_CASE = 20"
definition NODE_DEFAULT :: ast_node_type_t where "NODE_DEFAULT = 21"
definition NODE_RETURN :: ast_node_type_t where "NODE_RETURN = 22"
definition NODE_BREAK :: ast_node_type_t where "NODE_BREAK = 23"
definition NODE_CONTINUE :: ast_node_type_t where "NODE_CONTINUE = 24"
definition NODE_GOTO :: ast_node_type_t where "NODE_GOTO = 25"
definition NODE_LABEL :: ast_node_type_t where "NODE_LABEL = 26"
definition NODE_EMPTY :: ast_node_type_t where "NODE_EMPTY = 27"
definition NODE_NUMBER :: ast_node_type_t where "NODE_NUMBER = 28"
definition NODE_FLOAT :: ast_node_type_t where "NODE_FLOAT = 29"
definition NODE_STRING :: ast_node_type_t where "NODE_STRING = 30"
definition NODE_CHAR :: ast_node_type_t where "NODE_CHAR = 31"
definition NODE_IDENTIFIER :: ast_node_type_t where "NODE_IDENTIFIER = 32"
definition NODE_BINARY_OP :: ast_node_type_t where "NODE_BINARY_OP = 33"
definition NODE_UNARY_OP :: ast_node_type_t where "NODE_UNARY_OP = 34"
definition NODE_ASSIGN :: ast_node_type_t where "NODE_ASSIGN = 35"
definition NODE_COMPOUND_ASSIGN :: ast_node_type_t where "NODE_COMPOUND_ASSIGN = 36"
definition NODE_TERNARY :: ast_node_type_t where "NODE_TERNARY = 37"
definition NODE_CALL :: ast_node_type_t where "NODE_CALL = 38"
definition NODE_ARRAY_ACCESS :: ast_node_type_t where "NODE_ARRAY_ACCESS = 39"
definition NODE_MEMBER_ACCESS :: ast_node_type_t where "NODE_MEMBER_ACCESS = 40"
definition NODE_PTR_MEMBER :: ast_node_type_t where "NODE_PTR_MEMBER = 41"
definition NODE_CAST :: ast_node_type_t where "NODE_CAST = 42"
definition NODE_SIZEOF :: ast_node_type_t where "NODE_SIZEOF = 43"
definition NODE_ADDRESS_OF :: ast_node_type_t where "NODE_ADDRESS_OF = 44"
definition NODE_DEREFERENCE :: ast_node_type_t where "NODE_DEREFERENCE = 45"
definition NODE_PRE_INC :: ast_node_type_t where "NODE_PRE_INC = 46"
definition NODE_PRE_DEC :: ast_node_type_t where "NODE_PRE_DEC = 47"
definition NODE_POST_INC :: ast_node_type_t where "NODE_POST_INC = 48"
definition NODE_POST_DEC :: ast_node_type_t where "NODE_POST_DEC = 49"
definition NODE_COMMA :: ast_node_type_t where "NODE_COMMA = 50"
definition NODE_INIT_LIST :: ast_node_type_t where "NODE_INIT_LIST = 51"
definition NODE_CREATE :: ast_node_type_t where "NODE_CREATE = 52"
definition NODE_RESUME :: ast_node_type_t where "NODE_RESUME = 53"
definition NODE_SUSPEND :: ast_node_type_t where "NODE_SUSPEND = 54"
definition NODE_KILL :: ast_node_type_t where "NODE_KILL = 55"
definition NODE_SLEEP :: ast_node_type_t where "NODE_SLEEP = 56"
definition NODE_YIELD :: ast_node_type_t where "NODE_YIELD = 57"
definition NODE_WAIT :: ast_node_type_t where "NODE_WAIT = 58"
definition NODE_SIGNAL :: ast_node_type_t where "NODE_SIGNAL = 59"
definition NODE_GETPID :: ast_node_type_t where "NODE_GETPID = 60"
definition NODE_SEMAPHORE :: ast_node_type_t where "NODE_SEMAPHORE = 61"
definition NODE_TYPE :: ast_node_type_t where "NODE_TYPE = 62"
definition NODE_POINTER_TYPE :: ast_node_type_t where "NODE_POINTER_TYPE = 63"
definition NODE_ARRAY_TYPE :: ast_node_type_t where "NODE_ARRAY_TYPE = 64"
definition NODE_FUNC_TYPE :: ast_node_type_t where "NODE_FUNC_TYPE = 65"

text \<open>
  The \<^verbatim>\<open>value\<close> union of a node, by the member last written (\<^verbatim>\<open>ast_create_node\<close>
  zero-fills the node, which is \<open>Int_val 0\<close>). \<open>Float_val\<close> carries the literal's text, of
  which \<^verbatim>\<open>atof\<close> is the value; \<open>String_val\<close> the string \<^verbatim>\<open>strdup\<close> copied.
\<close>

datatype value_t = Int_val int | Float_val string | Char_val char | String_val string

text \<open>
  \<^verbatim>\<open>value.int_val\<close>. Over the zero-filled union, a written \<^verbatim>\<open>char_val\<close> reads back as
  its byte. The bits of a \<^verbatim>\<open>double\<close> or of a pointer read as an integer are outside the
  model, and the reading is fixed to 0 there: the generator reads \<^verbatim>\<open>int_val\<close> of
  \<^verbatim>\<open>NODE_NUMBER\<close> nodes only, whose \<^verbatim>\<open>int_val\<close> the parser has written.
\<close>

fun value_int_val :: "value_t \<Rightarrow> int" where
  "value_int_val (Int_val n) = n"
| "value_int_val (Char_val c) = of_char c"
| "value_int_val (Float_val s) = 0"
| "value_int_val (String_val s) = 0"

text \<open>
  \<^verbatim>\<open>ast_node_t\<close>. A child pointer that may be NULL is an \<open>option\<close>; \<open>node_children\<close>
  is the array \<^verbatim>\<open>children[0 .. child_count - 1]\<close> (\<^verbatim>\<open>ast_add_child\<close> never stores NULL).
  The fields \<^verbatim>\<open>token\<close>, \<^verbatim>\<open>line\<close>, \<^verbatim>\<open>column\<close>, \<^verbatim>\<open>filename\<close>, \<^verbatim>\<open>symbol\<close> and
  \<^verbatim>\<open>is_constant\<close> are never written after the zero fill and are left out.
\<close>

datatype ast_node_t =
  Ast_node (node_type: ast_node_type_t) (node_data_type: "type_info_t option")
    (node_value: value_t) (node_name: string) (node_op: string)
    (node_left: "ast_node_t option") (node_right: "ast_node_t option")
    (node_extra: "ast_node_t option") (node_children: "ast_node_t list")
    (node_is_lvalue: bool)

definition ast_create_node :: "ast_node_type_t \<Rightarrow> ast_node_t" where
  "ast_create_node ty = Ast_node ty None (Int_val 0) '''' '''' None None None [] False"

definition ast_add_child :: "ast_node_t \<Rightarrow> ast_node_t option \<Rightarrow> ast_node_t" where
  "ast_add_child parent child =
     (case child of
        None \<Rightarrow> parent
      | Some c \<Rightarrow>
          (case parent of Ast_node ty dt v name op l r e cs lv \<Rightarrow>
             Ast_node ty dt v name op l r e (cs @ [c]) lv))"

section \<open>Code generator (codegen.h, codegen.c)\<close>

datatype opcode_t =
    OP_PUSH | OP_POP | OP_DUP | OP_SWAP
  | OP_ADD | OP_SUB | OP_MUL | OP_DIV | OP_MOD | OP_NEG
  | OP_AND | OP_OR | OP_XOR | OP_NOT | OP_SHL | OP_SHR
  | OP_LAND | OP_LOR | OP_LNOT
  | OP_EQ | OP_NE | OP_LT | OP_LE | OP_GT | OP_GE
  | OP_LOAD | OP_STORE | OP_LOADL | OP_STOREL | OP_LOADG | OP_STOREG | OP_ADDR
  | OP_JMP | OP_JZ | OP_JNZ | OP_CALL | OP_RET
  | OP_CREATE | OP_RESUME | OP_SUSPEND | OP_KILL | OP_SLEEP | OP_YIELD | OP_WAIT
  | OP_SIGNAL | OP_GETPID
  | OP_NOP | OP_HALT

record instruction_t =
  opcode :: opcode_t
  operand :: int
  label :: string
  comment :: string

text \<open>\<^verbatim>\<open>code_buffer_t\<close>; \<^verbatim>\<open>count\<close> is the length of \<open>cb_instructions\<close>.\<close>

record code_buffer_t =
  cb_instructions :: "instruction_t list"
  cb_capacity :: int
  cb_label_counter :: int

record codegen_t =
  gen_code :: code_buffer_t
  gen_symtab :: symbol_table_t
  gen_loop_break_label :: int
  gen_loop_continue_label :: int
  gen_had_error :: bool
  gen_error_msg :: string

definition INITIAL_CODE_CAPACITY :: int where
  "INITIAL_CODE_CAPACITY = 1024"

definition code_buffer_create :: code_buffer_t where
  "code_buffer_create =
     \<lparr>cb_instructions = [], cb_capacity = INITIAL_CODE_CAPACITY, cb_label_counter = 0\<rparr>"

definition codegen_create :: "symbol_table_t \<Rightarrow> codegen_t" where
  "codegen_create symtab =
     \<lparr>gen_code = code_buffer_create, gen_symtab = symtab, gen_loop_break_label = - 1,
      gen_loop_continue_label = - 1, gen_had_error = False, gen_error_msg = ''''\<rparr>"

text \<open>\<^verbatim>\<open>gen->code->count\<close>.\<close>

definition count :: "codegen_t \<Rightarrow> int" where
  "count gen = int (length (cb_instructions (gen_code gen)))"

definition instrs :: "codegen_t \<Rightarrow> instruction_t list" where
  "instrs gen = cb_instructions (gen_code gen)"

text \<open>\<^verbatim>\<open>codegen_emit\<close>: double the capacity when the buffer is full, then append.\<close>

definition codegen_emit :: "codegen_t \<Rightarrow> opcode_t \<Rightarrow> int \<Rightarrow> codegen_t" where
  "codegen_emit gen opc opnd =
     (let code = gen_code gen;
          code1 = (if count gen \<ge> cb_capacity code
                   then code\<lparr>cb_capacity := cb_capacity code * 2\<rparr> else code)
      in gen\<lparr>gen_code := code1\<lparr>cb_instructions := cb_instructions code1
                 @ [\<lparr>opcode = opc, operand = opnd, label = '''', comment = ''''\<rparr>]\<rparr>\<rparr>)"

text \<open>
  \<^verbatim>\<open>codegen_emit_label\<close>: a NOP that carries the label, copied by
  \<^verbatim>\<open>strncpy\<close> into the 64-byte field (at most 63 characters).
\<close>

definition codegen_emit_label :: "codegen_t \<Rightarrow> string \<Rightarrow> codegen_t" where
  "codegen_emit_label gen lbl =
     (let gen1 = codegen_emit gen OP_NOP 0;
          code = gen_code gen1;
          instrs = cb_instructions code
      in if count gen1 > 0
         then gen1\<lparr>gen_code := code\<lparr>cb_instructions :=
                instrs[length instrs - 1 := (instrs ! (length instrs - 1))
                         \<lparr>label := strncpy lbl 63\<rparr>]\<rparr>\<rparr>
         else gen1)"

definition codegen_new_label :: "codegen_t \<Rightarrow> int \<times> codegen_t" where
  "codegen_new_label gen =
     (cb_label_counter (gen_code gen),
      gen\<lparr>gen_code := (gen_code gen)\<lparr>cb_label_counter := cb_label_counter (gen_code gen) + 1\<rparr>\<rparr>)"

definition codegen_patch_jump :: "codegen_t \<Rightarrow> int \<Rightarrow> int \<Rightarrow> codegen_t" where
  "codegen_patch_jump gen instruction_index target =
     (if instruction_index \<ge> 0 \<and> instruction_index < count gen
      then let instrs = cb_instructions (gen_code gen);
               i = nat instruction_index
           in gen\<lparr>gen_code := (gen_code gen)\<lparr>cb_instructions :=
                    instrs[i := (instrs ! i)\<lparr>operand := target\<rparr>]\<rparr>\<rparr>
      else gen)"

definition codegen_error :: "codegen_t \<Rightarrow> string \<Rightarrow> codegen_t" where
  "codegen_error gen message =
     gen\<lparr>gen_had_error := True, gen_error_msg := strncpy message 511\<rparr>"

definition codegen_had_error :: "codegen_t \<Rightarrow> bool" where
  "codegen_had_error gen = gen_had_error gen"

text \<open>The \<^verbatim>\<open>strcmp\<close> chain of the \<^verbatim>\<open>NODE_BINARY_OP\<close> case: one opcode for a known
  operator spelling, nothing otherwise.\<close>

definition emit_binary_op :: "codegen_t \<Rightarrow> string \<Rightarrow> codegen_t" where
  "emit_binary_op gen op =
     (if strcmp_eq op ''+'' then codegen_emit gen OP_ADD 0
      else if strcmp_eq op ''-'' then codegen_emit gen OP_SUB 0
      else if strcmp_eq op ''*'' then codegen_emit gen OP_MUL 0
      else if strcmp_eq op ''/'' then codegen_emit gen OP_DIV 0
      else if strcmp_eq op ''%'' then codegen_emit gen OP_MOD 0
      else if strcmp_eq op ''&'' then codegen_emit gen OP_AND 0
      else if strcmp_eq op ''|'' then codegen_emit gen OP_OR 0
      else if strcmp_eq op ''^'' then codegen_emit gen OP_XOR 0
      else if strcmp_eq op ''<<'' then codegen_emit gen OP_SHL 0
      else if strcmp_eq op ''>>'' then codegen_emit gen OP_SHR 0
      else if strcmp_eq op ''=='' then codegen_emit gen OP_EQ 0
      else if strcmp_eq op ''!='' then codegen_emit gen OP_NE 0
      else if strcmp_eq op ''<'' then codegen_emit gen OP_LT 0
      else if strcmp_eq op ''<='' then codegen_emit gen OP_LE 0
      else if strcmp_eq op ''>'' then codegen_emit gen OP_GT 0
      else if strcmp_eq op ''>='' then codegen_emit gen OP_GE 0
      else if strcmp_eq op ''&&'' then codegen_emit gen OP_LAND 0
      else if strcmp_eq op ''||'' then codegen_emit gen OP_LOR 0
      else gen)"

text \<open>The \<^verbatim>\<open>strcmp\<close> chain of the \<^verbatim>\<open>NODE_UNARY_OP\<close> case.\<close>

definition emit_unary_op :: "codegen_t \<Rightarrow> string \<Rightarrow> codegen_t" where
  "emit_unary_op gen op =
     (if strcmp_eq op ''-'' then codegen_emit gen OP_NEG 0
      else if strcmp_eq op ''!'' then codegen_emit gen OP_LNOT 0
      else if strcmp_eq op ''~'' then codegen_emit gen OP_NOT 0
      else gen)"

text \<open>
  \<^verbatim>\<open>codegen_expression\<close>. The result is \<open>None\<close> where the C code dereferences a
  NULL pointer (\<^verbatim>\<open>node->left->name\<close> of an assignment or a call without a left child);
  otherwise it is the generator after the call. \<open>codegen_expressions\<close> is the loop over
  a child array, in order.
\<close>

fun codegen_expression :: "codegen_t \<Rightarrow> ast_node_t option \<Rightarrow> codegen_t option"
  and codegen_expressions :: "codegen_t \<Rightarrow> ast_node_t list \<Rightarrow> codegen_t option" where
  "codegen_expression gen None = Some gen"
| "codegen_expression gen (Some (Ast_node ty dt v name op left right extra children lv)) =
     (if ty = NODE_NUMBER then
        Some (codegen_emit gen OP_PUSH (int32_t_of (value_int_val v)))
      else if ty = NODE_IDENTIFIER then
        (case symtab_lookup (gen_symtab gen) name of
           None \<Rightarrow> Some (codegen_error gen ''Undefined variable'')
         | Some sy \<Rightarrow>
             if sym_scope_level sy = 0
             then Some (codegen_emit gen OP_LOADG (sym_offset sy))
             else Some (codegen_emit gen OP_LOADL (sym_offset sy)))
      else if ty = NODE_BINARY_OP then
        do {
          gen1 \<leftarrow> codegen_expression gen left;
          gen2 \<leftarrow> codegen_expression gen1 right;
          Some (emit_binary_op gen2 op)
        }
      else if ty = NODE_UNARY_OP then
        do {
          gen1 \<leftarrow> codegen_expression gen left;
          Some (emit_unary_op gen1 op)
        }
      else if ty = NODE_ASSIGN then
        (case left of
           None \<Rightarrow> None
         | Some target \<Rightarrow>
             (case symtab_lookup (gen_symtab gen) (node_name target) of
                None \<Rightarrow> Some (codegen_error gen ''Undefined variable'')
              | Some sy \<Rightarrow>
                  do {
                    gen1 \<leftarrow> codegen_expression gen right;
                    let gen2 = codegen_emit gen1 OP_DUP 0;
                    if sym_scope_level sy = 0
                    then Some (codegen_emit gen2 OP_STOREG (sym_offset sy))
                    else Some (codegen_emit gen2 OP_STOREL (sym_offset sy))
                  }))
      else if ty = NODE_CALL then
        do {
          gen1 \<leftarrow> codegen_expressions gen children;
          (case left of
             None \<Rightarrow> None
           | Some callee \<Rightarrow>
               (case symtab_lookup (gen_symtab gen1) (node_name callee) of
                  None \<Rightarrow> Some (codegen_error gen1 ''Undefined function'')
                | Some sy \<Rightarrow> Some (codegen_emit gen1 OP_CALL (sym_offset sy))))
        }
      else if ty = NODE_GETPID then
        Some (codegen_emit gen OP_GETPID 0)
      else Some gen)"
| "codegen_expressions gen [] = Some gen"
| "codegen_expressions gen (child # rest) =
     do {
       gen1 \<leftarrow> codegen_expression gen (Some child);
       codegen_expressions gen1 rest
     }"

text \<open>
  \<^verbatim>\<open>codegen_statement\<close>; \<open>codegen_statements\<close> is the loop of \<^verbatim>\<open>NODE_BLOCK\<close>.
\<close>

fun codegen_statement :: "codegen_t \<Rightarrow> ast_node_t option \<Rightarrow> codegen_t option"
  and codegen_statements :: "codegen_t \<Rightarrow> ast_node_t list \<Rightarrow> codegen_t option" where
  "codegen_statement gen None = Some gen"
| "codegen_statement gen (Some (Ast_node ty dt v name op left right extra children lv)) =
     (if ty = NODE_EXPR_STMT then
        do {
          gen1 \<leftarrow> codegen_expression gen left;
          Some (codegen_emit gen1 OP_POP 0)
        }
      else if ty = NODE_RETURN then
        do {
          gen1 \<leftarrow> (if left \<noteq> None then codegen_expression gen left
                   else Some (codegen_emit gen OP_PUSH 0));
          Some (codegen_emit gen1 OP_RET 0)
        }
      else if ty = NODE_IF then
        do {
          let else_label = fst (codegen_new_label gen);
          let gen0a = snd (codegen_new_label gen);
          let end_label = fst (codegen_new_label gen0a);
          let gen0 = snd (codegen_new_label gen0a);
          gen1 \<leftarrow> codegen_expression gen0 left;
          let jz_index = count gen1;
          let gen2 = codegen_emit gen1 OP_JZ 0;
          gen3 \<leftarrow> codegen_statement gen2 right;
          if extra \<noteq> None then
            do {
              let jmp_index = count gen3;
              let gen4 = codegen_emit gen3 OP_JMP 0;
              let gen5 = codegen_patch_jump gen4 jz_index (count gen4);
              gen6 \<leftarrow> codegen_statement gen5 extra;
              Some (codegen_patch_jump gen6 jmp_index (count gen6))
            }
          else Some (codegen_patch_jump gen3 jz_index (count gen3))
        }
      else if ty = NODE_WHILE then
        do {
          let loop_start = count gen;
          let old_break = gen_loop_break_label gen;
          let old_continue = gen_loop_continue_label gen;
          let gen0 = gen\<lparr>gen_loop_continue_label := loop_start\<rparr>;
          gen1 \<leftarrow> codegen_expression gen0 left;
          let jz_index = count gen1;
          let gen2 = codegen_emit gen1 OP_JZ 0;
          gen3 \<leftarrow> codegen_statement gen2 right;
          let gen4 = codegen_emit gen3 OP_JMP loop_start;
          let gen5 = codegen_patch_jump gen4 jz_index (count gen4);
          Some (gen5\<lparr>gen_loop_break_label := old_break,
                      gen_loop_continue_label := old_continue\<rparr>)
        }
      else if ty = NODE_FOR then
        do {
          let old_break = gen_loop_break_label gen;
          let old_continue = gen_loop_continue_label gen;
          gen1 \<leftarrow> (if left \<noteq> None then
                     do {
                       g \<leftarrow> codegen_expression gen left;
                       Some (codegen_emit g OP_POP 0)
                     }
                   else Some gen);
          let loop_start = count gen1;
          gen2 \<leftarrow> (if right \<noteq> None then
                     do {
                       g \<leftarrow> codegen_expression gen1 right;
                       let jz_index = count g;
                       let g1 = codegen_emit g OP_JZ 0;
                       Some (g1\<lparr>gen_loop_break_label := jz_index\<rparr>)
                     }
                   else Some gen1);
          gen3 \<leftarrow> (case children of
                     [] \<Rightarrow> Some gen2
                   | body # others \<Rightarrow> codegen_statement gen2 (Some body));
          let continue_pos = count gen3;
          let gen4 = gen3\<lparr>gen_loop_continue_label := continue_pos\<rparr>;
          gen5 \<leftarrow> (if extra \<noteq> None then
                     do {
                       g \<leftarrow> codegen_expression gen4 extra;
                       Some (codegen_emit g OP_POP 0)
                     }
                   else Some gen4);
          let gen6 = codegen_emit gen5 OP_JMP loop_start;
          let gen7 = (if right \<noteq> None \<and> gen_loop_break_label gen6 \<ge> 0
                      then codegen_patch_jump gen6 (gen_loop_break_label gen6) (count gen6)
                      else gen6);
          Some (gen7\<lparr>gen_loop_break_label := old_break,
                      gen_loop_continue_label := old_continue\<rparr>)
        }
      else if ty = NODE_BREAK then
        (if gen_loop_break_label gen \<ge> 0
         then Some (codegen_emit gen OP_JMP (gen_loop_break_label gen))
         else Some gen)
      else if ty = NODE_CONTINUE then
        (if gen_loop_continue_label gen \<ge> 0
         then Some (codegen_emit gen OP_JMP (gen_loop_continue_label gen))
         else Some gen)
      else if ty = NODE_BLOCK then
        codegen_statements gen children
      else if ty = NODE_CREATE then
        do {
          gen1 \<leftarrow> codegen_expressions gen children;
          Some (codegen_emit gen1 OP_CREATE (int (length children)))
        }
      else if ty = NODE_RESUME then
        do { gen1 \<leftarrow> codegen_expression gen left; Some (codegen_emit gen1 OP_RESUME 0) }
      else if ty = NODE_SUSPEND then
        do { gen1 \<leftarrow> codegen_expression gen left; Some (codegen_emit gen1 OP_SUSPEND 0) }
      else if ty = NODE_KILL then
        do { gen1 \<leftarrow> codegen_expression gen left; Some (codegen_emit gen1 OP_KILL 0) }
      else if ty = NODE_SLEEP then
        do { gen1 \<leftarrow> codegen_expression gen left; Some (codegen_emit gen1 OP_SLEEP 0) }
      else if ty = NODE_YIELD then
        Some (codegen_emit gen OP_YIELD 0)
      else if ty = NODE_WAIT then
        do { gen1 \<leftarrow> codegen_expression gen left; Some (codegen_emit gen1 OP_WAIT 0) }
      else if ty = NODE_SIGNAL then
        do { gen1 \<leftarrow> codegen_expression gen left; Some (codegen_emit gen1 OP_SIGNAL 0) }
      else Some gen)"
| "codegen_statements gen [] = Some gen"
| "codegen_statements gen (child # rest) =
     do {
       gen1 \<leftarrow> codegen_statement gen (Some child);
       codegen_statements gen1 rest
     }"

text \<open>
  \<^verbatim>\<open>codegen_function\<close>: the label \<^verbatim>\<open>func_<name>\<close> (cut by \<^verbatim>\<open>snprintf\<close> to the
  64-byte buffer), the body, and the implicit return.
\<close>

definition codegen_function :: "codegen_t \<Rightarrow> ast_node_t option \<Rightarrow> codegen_t option" where
  "codegen_function gen node =
     (case node of
        None \<Rightarrow> Some gen
      | Some n \<Rightarrow>
          do {
            let lbl = take 63 (''func_'' @ c_str (node_name n));
            let gen1 = codegen_emit_label gen lbl;
            gen2 \<leftarrow> (if node_left n \<noteq> None then codegen_statement gen1 (node_left n)
                     else Some gen1);
            let gen3 = codegen_emit gen2 OP_PUSH 0;
            Some (codegen_emit gen3 OP_RET 0)
          })"

text \<open>The loop of \<^verbatim>\<open>codegen_program\<close> over the top-level nodes.\<close>

fun codegen_functions :: "codegen_t \<Rightarrow> ast_node_t list \<Rightarrow> codegen_t option" where
  "codegen_functions gen [] = Some gen"
| "codegen_functions gen (child # rest) =
     (if node_type child = NODE_FUNCTION \<or> node_type child = NODE_PROCESS
      then do { gen1 \<leftarrow> codegen_function gen (Some child); codegen_functions gen1 rest }
      else codegen_functions gen rest)"

definition codegen_program :: "codegen_t \<Rightarrow> ast_node_t option \<Rightarrow> codegen_t option" where
  "codegen_program gen node =
     (case node of
        None \<Rightarrow> Some gen
      | Some n \<Rightarrow>
          if node_type n \<noteq> NODE_PROGRAM then Some gen
          else do {
            gen1 \<leftarrow> codegen_functions gen (node_children n);
            Some (codegen_emit gen1 OP_HALT 0)
          })"

text \<open>
  \<^verbatim>\<open>codegen_generate\<close>: the returned flag and the generator after the call; \<open>None\<close>
  where the traversal dereferences NULL.
\<close>

definition codegen_generate ::
  "codegen_t \<Rightarrow> ast_node_t option \<Rightarrow> (bool \<times> codegen_t) option" where
  "codegen_generate gen ast =
     (case ast of
        None \<Rightarrow> Some (False, gen)
      | Some n \<Rightarrow>
          do {
            gen1 \<leftarrow> codegen_program gen ast;
            Some (\<not> gen_had_error gen1, gen1)
          })"

section \<open>Driver (compiler.c)\<close>

text \<open>
  The loop of \<^verbatim>\<open>compiler_analyze\<close> over the top-level declarations: functions, processes
  and global variables enter the symbol table; the result of \<^verbatim>\<open>symtab_insert\<close> is
  dropped.
\<close>

fun analyze_children :: "symbol_table_t \<Rightarrow> ast_node_t list \<Rightarrow> symbol_table_t" where
  "analyze_children t [] = t"
| "analyze_children t (child # rest) =
     (if node_type child = NODE_FUNCTION \<or> node_type child = NODE_PROCESS then
        analyze_children
          (snd (symtab_insert t (node_name child)
                  (if node_type child = NODE_PROCESS then SYM_PROCESS else SYM_FUNCTION)
                  (node_data_type child)))
          rest
      else if node_type child = NODE_VAR_DECL then
        analyze_children (snd (symtab_insert t (node_name child) SYM_VARIABLE (node_data_type child)))
          rest
      else analyze_children t rest)"

text \<open>
  \<^verbatim>\<open>compiler_analyze\<close> on a tree that is not NULL: the returned flag and the symbol table
  it leaves in the compiler.
\<close>

definition compiler_analyze :: "ast_node_t \<Rightarrow> bool \<times> symbol_table_t" where
  "compiler_analyze ast =
     (let t = (if node_type ast = NODE_PROGRAM
               then analyze_children symtab_create (node_children ast) else symtab_create)
      in (\<not> symtab_had_error t, t))"

text \<open>
  \<^verbatim>\<open>compiler_generate\<close> on a tree that is not NULL: a fresh generator on the compiler's
  symbol table, then \<^verbatim>\<open>codegen_generate\<close>.
\<close>

definition compiler_generate ::
  "symbol_table_t \<Rightarrow> ast_node_t \<Rightarrow> (bool \<times> codegen_t) option" where
  "compiler_generate symtab ast = codegen_generate (codegen_create symtab) (Some ast)"

text \<open>The opcode and operand of every instruction, in order.\<close>

definition code_of :: "(bool \<times> codegen_t) option \<Rightarrow> (bool \<times> (opcode_t \<times> int) list) option" where
  "code_of r = map_option (\<lambda>p. (fst p, map (\<lambda>ins. (opcode ins, operand ins)) (instrs (snd p)))) r"

text \<open>
  Trees as the parser builds them: a number literal (its value, its text as name, type
  \<^verbatim>\<open>int\<close>), an identifier, a node with its three links and its children, and a
  \<^verbatim>\<open>void\<close> function of one block.
\<close>

definition number_node :: "int \<Rightarrow> string \<Rightarrow> ast_node_t" where
  "number_node n text =
     Ast_node NODE_NUMBER (Some (type_create TYPE_INT)) (Int_val n) text '''' None None None []
       False"

definition stmt_node ::
  "ast_node_type_t \<Rightarrow> ast_node_t option \<Rightarrow> ast_node_t option \<Rightarrow> ast_node_t option
     \<Rightarrow> ast_node_t list \<Rightarrow> ast_node_t" where
  "stmt_node ty l r e cs = Ast_node ty None (Int_val 0) '''' '''' l r e cs False"

definition function_node :: "string \<Rightarrow> ast_node_t \<Rightarrow> ast_node_t" where
  "function_node name body =
     Ast_node NODE_FUNCTION (Some (type_create TYPE_VOID)) (Int_val 0) name '''' (Some body)
       None None [] False"

definition identifier_node :: "string \<Rightarrow> ast_node_t" where
  "identifier_node name = Ast_node NODE_IDENTIFIER None (Int_val 0) name '''' None None None [] True"

section \<open>Properties of the symbol table\<close>

lemma chain_lookup_None_iff:
  "chain_lookup syms name = None \<longleftrightarrow> (\<forall>sy \<in> set syms. \<not> strcmp_eq (sym_name sy) name)"
  by (induction syms) auto

lemma hash_loop_c_str: "hash_loop h (c_str s) = hash_loop h s"
  by (induction s arbitrary: h) (auto simp: c_str_def)

lemma hash_c_str: "hash (c_str s) = hash s"
  by (simp add: hash_def hash_loop_c_str)

lemma hash_strcmp_eq: "strcmp_eq a b \<Longrightarrow> hash a = hash b"
  by (metis hash_c_str strcmp_eq_def)

lemma hash_less: "hash s < HASH_TABLE_SIZE"
  by (simp add: hash_def HASH_TABLE_SIZE_def nat_less_iff)

lemma exists_current_scope_iff:
  assumes "scope_wf (st_current_scope t)"
  shows "symtab_exists_current_scope t name \<longleftrightarrow> scope_declares (st_current_scope t) name"
proof
  assume "symtab_exists_current_scope t name"
  then obtain sy where "sy \<in> set (sc_symbols (st_current_scope t) (hash name))"
      and "strcmp_eq (sym_name sy) name"
    by (auto simp: symtab_exists_current_scope_def symtab_lookup_current_scope_def
        chain_lookup_None_iff)
  then show "scope_declares (st_current_scope t) name"
    using hash_less [of name] by (auto simp: scope_declares_def list_ex_iff)
next
  assume "scope_declares (st_current_scope t) name"
  then obtain h sy where h: "h < HASH_TABLE_SIZE"
      and sy: "sy \<in> set (sc_symbols (st_current_scope t) h)"
      and eq: "strcmp_eq (sym_name sy) name"
    by (auto simp: scope_declares_def list_ex_iff)
  from assms h sy have "hash (sym_name sy) = h"
    by (auto simp: scope_wf_def list_all_iff)
  with eq have "h = hash name"
    using hash_strcmp_eq by blast
  with sy eq show "symtab_exists_current_scope t name"
    by (auto simp: symtab_exists_current_scope_def symtab_lookup_current_scope_def
        chain_lookup_None_iff)
qed


subsection \<open>The representation invariant is what the operations build\<close>

lemma scope_wf_scope_create: "scope_wf (scope_create level)"
  by (simp add: scope_wf_def scope_create_def list_all_iff)

lemma strncpy_short: "length (c_str name) < MAX_TOKEN_LEN \<Longrightarrow> strncpy name (MAX_TOKEN_LEN - 1) = c_str name"
  by (simp add: strncpy_def)

lemma scope_wf_symtab_insert:
  assumes "scope_wf (st_current_scope t)" and "length (c_str name) < MAX_TOKEN_LEN"
  shows "scope_wf (st_current_scope (snd (symtab_insert t name kind ty)))"
proof -
  have key: "hash (strncpy name (MAX_TOKEN_LEN - 1)) = hash name"
    using strncpy_short [OF assms(2)] by (simp only: hash_c_str)
  show ?thesis
    using assms(1) key
    by (auto simp: symtab_insert_def scope_wf_def list_all_iff Let_def simp del: One_nat_def)
qed

text \<open>All scopes of a table satisfy the invariant.\<close>

definition symtab_wf :: "symbol_table_t \<Rightarrow> bool" where
  "symtab_wf t \<longleftrightarrow> scope_wf (st_current_scope t) \<and> list_all scope_wf (st_ancestors t)"

lemma symtab_wf_create: "symtab_wf symtab_create"
  by (simp add: symtab_wf_def symtab_create_def scope_wf_scope_create)

lemma symtab_wf_enter_scope: "symtab_wf t \<Longrightarrow> symtab_wf (symtab_enter_scope t)"
  by (simp add: symtab_wf_def symtab_enter_scope_def scope_wf_scope_create)

lemma symtab_wf_exit_scope: "symtab_wf t \<Longrightarrow> symtab_wf (symtab_exit_scope t)"
  by (auto simp: symtab_wf_def symtab_exit_scope_def split: list.splits)

lemma symtab_insert_ancestors:
  "st_ancestors (snd (symtab_insert t name kind ty)) = st_ancestors t"
  by (simp add: symtab_insert_def Let_def)

lemma symtab_wf_insert:
  "symtab_wf t \<Longrightarrow> length (c_str name) < MAX_TOKEN_LEN
     \<Longrightarrow> symtab_wf (snd (symtab_insert t name kind ty))"
  by (simp add: symtab_wf_def scope_wf_symtab_insert symtab_insert_ancestors)

subsection \<open>Scope entry and exit\<close>

text \<open>
  Claim C9. For every symbol table, \<open>symtab_enter_scope\<close> followed immediately by
  \<open>symtab_exit_scope\<close> restores the previous current scope and the previous level, and
  indeed the whole table: entering pushes a fresh, empty scope whose level is one greater
  and whose parent is the old current scope, and leaving drops it again. When the current
  scope is the global scope (it has no parent), \<open>symtab_exit_scope\<close> returns the table
  unchanged.
\<close>

theorem symtab_enter_exit_scope:
  "symtab_exit_scope (symtab_enter_scope t) = t
   \<and> st_current_scope (symtab_exit_scope (symtab_enter_scope t)) = st_current_scope t
   \<and> st_scope_level (symtab_exit_scope (symtab_enter_scope t)) = st_scope_level t
   \<and> st_scope_level (symtab_enter_scope t) = st_scope_level t + 1
   \<and> st_current_scope (symtab_enter_scope t) = scope_create (st_scope_level t + 1)
   \<and> sc_level (st_current_scope (symtab_enter_scope t)) = st_scope_level t + 1
   \<and> st_ancestors (symtab_enter_scope t) = st_current_scope t # st_ancestors t
   \<and> (st_ancestors t = [] \<longrightarrow> symtab_exit_scope t = t)"
  by (simp add: symtab_exit_scope_def symtab_enter_scope_def scope_create_def)

theorem symtab_enter_exit_scope_witness:
  "st_ancestors symtab_create = []
   \<and> symtab_exit_scope symtab_create = symtab_create
   \<and> symtab_exit_scope (symtab_enter_scope symtab_create) = symtab_create
   \<and> sc_level (st_current_scope (symtab_enter_scope symtab_create)) = 1"
proof -
  have global: "st_ancestors symtab_create = []"
    by (simp add: symtab_create_def)
  have level: "st_scope_level symtab_create = 0"
    by (simp add: symtab_create_def)
  show ?thesis
    using symtab_enter_exit_scope [of symtab_create] global level
    by (simp add: scope_create_def)
qed

subsection \<open>Redeclaration\<close>

text \<open>
  Claim C10. When \<open>symtab_insert\<close> fails because the name is already declared in the
  current scope, it returns NULL and changes nothing but the error flag and the error
  message: the current scope (its buckets, its symbol count and its next offset), the
  enclosing scopes and the level are what they were before the call.
\<close>

theorem symtab_insert_redeclaration_frame:
  assumes "symtab_exists_current_scope t name"
  shows "fst (symtab_insert t name kind ty) = None
    \<and> snd (symtab_insert t name kind ty)
        = t\<lparr>st_error_msg := redeclaration_msg name, st_had_error := True\<rparr>
    \<and> st_current_scope (snd (symtab_insert t name kind ty)) = st_current_scope t
    \<and> sc_symbols (st_current_scope (snd (symtab_insert t name kind ty)))
        = sc_symbols (st_current_scope t)
    \<and> sc_symbol_count (st_current_scope (snd (symtab_insert t name kind ty)))
        = sc_symbol_count (st_current_scope t)
    \<and> sc_next_offset (st_current_scope (snd (symtab_insert t name kind ty)))
        = sc_next_offset (st_current_scope t)
    \<and> st_ancestors (snd (symtab_insert t name kind ty)) = st_ancestors t
    \<and> st_scope_level (snd (symtab_insert t name kind ty)) = st_scope_level t"
  using assms by (simp add: symtab_insert_def)

text \<open>The table after declaring the global variable \<^verbatim>\<open>int x\<close>.\<close>

definition table_with_x :: symbol_table_t where
  "table_with_x =
     snd (symtab_insert symtab_create ''x'' SYM_VARIABLE (Some (type_create TYPE_INT)))"

lemma table_with_x_exists: "symtab_exists_current_scope table_with_x ''x''"
  by code_simp

lemma table_with_x_count: "sc_symbol_count (st_current_scope table_with_x) = 1"
  by code_simp

lemma table_with_x_next_offset: "sc_next_offset (st_current_scope table_with_x) = 4"
  by code_simp

theorem symtab_insert_redeclaration_frame_witness:
  "symtab_exists_current_scope table_with_x ''x''
   \<and> fst (symtab_insert table_with_x ''x'' SYM_FUNCTION None) = None
   \<and> sc_symbol_count
        (st_current_scope (snd (symtab_insert table_with_x ''x'' SYM_FUNCTION None))) = 1
   \<and> sc_next_offset
        (st_current_scope (snd (symtab_insert table_with_x ''x'' SYM_FUNCTION None))) = 4"
  using symtab_insert_redeclaration_frame [OF table_with_x_exists, of SYM_FUNCTION None]
  by (simp add: table_with_x_exists table_with_x_count table_with_x_next_offset)

text \<open>
  What holds of the claim about redeclaration. On a table whose current scope satisfies
  the hash table's invariant \<open>scope_wf\<close>, \<open>symtab_insert\<close> fails (returns NULL, having
  set the error flag and the redeclaration message) if and only if a stored name of the
  current scope compares equal to the given name. The enclosing scopes play no part: a
  name declared only in an outer scope, or in no scope, is inserted, and the new symbol
  heads its bucket in the current scope. \<open>symtab_create\<close> and \<open>symtab_enter_scope\<close>
  establish the invariant; \<open>symtab_insert\<close> keeps it only for names shorter than
  \<open>MAX_TOKEN_LEN\<close> (lemmas \<open>symtab_wf_create\<close>, \<open>symtab_wf_enter_scope\<close>,
  \<open>symtab_wf_exit_scope\<close>, \<open>symtab_wf_insert\<close>).
\<close>

lemma symtab_insert_wf_fails_iff_declared:
  assumes "scope_wf (st_current_scope t)"
  shows "(fst (symtab_insert t name kind ty) = None
            \<longleftrightarrow> scope_declares (st_current_scope t) name)
    \<and> (scope_declares (st_current_scope t) name \<longrightarrow>
          st_had_error (snd (symtab_insert t name kind ty))
          \<and> st_error_msg (snd (symtab_insert t name kind ty)) = redeclaration_msg name)
    \<and> (\<not> scope_declares (st_current_scope t) name \<longrightarrow>
          (\<exists>sy. fst (symtab_insert t name kind ty) = Some sy
              \<and> sym_name sy = strncpy name (MAX_TOKEN_LEN - 1)
              \<and> sc_symbols (st_current_scope (snd (symtab_insert t name kind ty))) (hash name)
                  = sy # sc_symbols (st_current_scope t) (hash name))
          \<and> st_had_error (snd (symtab_insert t name kind ty)) = st_had_error t)"
  using exists_current_scope_iff [OF assms, of name]
  by (simp add: symtab_insert_def Let_def)

text \<open>The table after declaring \<^verbatim>\<open>int x\<close> globally and entering a nested scope.\<close>

definition table_nested :: symbol_table_t where
  "table_nested = symtab_enter_scope table_with_x"

lemma table_with_x_wf: "scope_wf (st_current_scope table_with_x)"
  by code_simp

lemma table_with_x_declares: "scope_declares (st_current_scope table_with_x) ''x''"
  by code_simp

lemma table_nested_wf: "scope_wf (st_current_scope table_nested)"
  by code_simp

lemma table_nested_outer_declares:
  "list_ex (\<lambda>outer. scope_declares outer ''x'') (st_ancestors table_nested)"
  by code_simp

lemma table_nested_not_declares: "\<not> scope_declares (st_current_scope table_nested) ''x''"
  by code_simp

lemma symtab_insert_wf_fails_iff_declared_example:
  "scope_wf (st_current_scope table_with_x)
   \<and> scope_declares (st_current_scope table_with_x) ''x''
   \<and> fst (symtab_insert table_with_x ''x'' SYM_VARIABLE None) = None
   \<and> st_had_error (snd (symtab_insert table_with_x ''x'' SYM_VARIABLE None))
   \<and> scope_wf (st_current_scope table_nested)
   \<and> list_ex (\<lambda>outer. scope_declares outer ''x'') (st_ancestors table_nested)
   \<and> \<not> scope_declares (st_current_scope table_nested) ''x''
   \<and> fst (symtab_insert table_nested ''x'' SYM_VARIABLE None) \<noteq> None"
  using symtab_insert_wf_fails_iff_declared [OF table_with_x_wf, of "''x''" SYM_VARIABLE None]
    symtab_insert_wf_fails_iff_declared [OF table_nested_wf, of "''x''" SYM_VARIABLE None]
    table_with_x_wf table_with_x_declares table_nested_wf table_nested_outer_declares
    table_nested_not_declares
  by auto

text \<open>
  A name of 256 characters, and the table after declaring a global \<^verbatim>\<open>int\<close> variable of
  that name: \<^verbatim>\<open>symtab_insert\<close> stores the first 255 characters, in the bucket of the
  whole name.
\<close>

definition long_name :: string where
  "long_name = replicate 256 (CHR ''a'')"

definition table_long :: symbol_table_t where
  "table_long =
     snd (symtab_insert symtab_create long_name SYM_VARIABLE (Some (type_create TYPE_INT)))"

text \<open>
  Claim C6. \<open>symtab_insert\<close> is to fail with a redeclaration error if and only if a symbol
  with that name already exists in the current scope. The code breaks it at a name of
  \<open>MAX_TOKEN_LEN\<close> characters or more: in \<open>table_long\<close> the current (global) scope
  holds a symbol whose name is 255 times \<^verbatim>\<open>a\<close>, the bucket of that name is empty (the
  symbol was filed under the hash of the uncut name, so the scope no longer satisfies
  \<open>scope_wf\<close>), and inserting the name 255 times \<^verbatim>\<open>a\<close> succeeds without an error, as
  does inserting the 256-character name a second time.
\<close>

theorem symtab_insert_misses_truncated_name:
  "scope_declares (st_current_scope table_long) (take 255 long_name)
   \<and> \<not> scope_wf (st_current_scope table_long)
   \<and> hash long_name = 5 \<and> hash (take 255 long_name) = 36
   \<and> map sym_name (sc_symbols (st_current_scope table_long) 5) = [take 255 long_name]
   \<and> sc_symbols (st_current_scope table_long) 36 = []
   \<and> fst (symtab_insert table_long (take 255 long_name) SYM_VARIABLE
             (Some (type_create TYPE_INT))) \<noteq> None
   \<and> \<not> st_had_error (snd (symtab_insert table_long (take 255 long_name) SYM_VARIABLE
             (Some (type_create TYPE_INT))))
   \<and> fst (symtab_insert table_long long_name SYM_VARIABLE
             (Some (type_create TYPE_INT))) \<noteq> None
   \<and> \<not> st_had_error (snd (symtab_insert table_long long_name SYM_VARIABLE
             (Some (type_create TYPE_INT))))"
  by code_simp

section \<open>Properties of the code generator\<close>

lemmas node_type_defs = NODE_PROGRAM_def NODE_FUNCTION_def NODE_PROCESS_def NODE_SYSCALL_def
   NODE_INTERRUPT_def NODE_PARAM_def NODE_BLOCK_def NODE_VAR_DECL_def NODE_ARRAY_DECL_def
   NODE_STRUCT_DECL_def NODE_UNION_DECL_def NODE_ENUM_DECL_def NODE_TYPEDEF_def
   NODE_FIELD_def NODE_EXPR_STMT_def NODE_IF_def NODE_WHILE_def NODE_DO_WHILE_def
   NODE_FOR_def NODE_SWITCH_def NODE_CASE_def NODE_DEFAULT_def NODE_RETURN_def
   NODE_BREAK_def NODE_CONTINUE_def NODE_GOTO_def NODE_LABEL_def NODE_EMPTY_def
   NODE_NUMBER_def NODE_FLOAT_def NODE_STRING_def NODE_CHAR_def NODE_IDENTIFIER_def
   NODE_BINARY_OP_def NODE_UNARY_OP_def NODE_ASSIGN_def NODE_COMPOUND_ASSIGN_def
   NODE_TERNARY_def NODE_CALL_def NODE_ARRAY_ACCESS_def NODE_MEMBER_ACCESS_def
   NODE_PTR_MEMBER_def NODE_CAST_def NODE_SIZEOF_def NODE_ADDRESS_OF_def
   NODE_DEREFERENCE_def NODE_PRE_INC_def NODE_PRE_DEC_def NODE_POST_INC_def
   NODE_POST_DEC_def NODE_COMMA_def NODE_INIT_LIST_def NODE_CREATE_def NODE_RESUME_def
   NODE_SUSPEND_def NODE_KILL_def NODE_SLEEP_def NODE_YIELD_def NODE_WAIT_def
   NODE_SIGNAL_def NODE_GETPID_def NODE_SEMAPHORE_def NODE_TYPE_def NODE_POINTER_TYPE_def
   NODE_ARRAY_TYPE_def NODE_FUNC_TYPE_def

subsection \<open>The emission primitives\<close>

lemma count_instrs: "count gen = int (length (instrs gen))"
  by (simp add: count_def instrs_def)

lemma instrs_emit:
  "instrs (codegen_emit gen opc opnd)
     = instrs gen @ [\<lparr>opcode = opc, operand = opnd, label = [], comment = []\<rparr>]"
  by (simp add: codegen_emit_def instrs_def Let_def)

lemma count_emit: "count (codegen_emit gen opc opnd) = count gen + 1"
  by (simp add: count_instrs instrs_emit)

lemma labels_emit:
  "gen_loop_break_label (codegen_emit gen opc opnd) = gen_loop_break_label gen"
  "gen_loop_continue_label (codegen_emit gen opc opnd) = gen_loop_continue_label gen"
  by (simp_all add: codegen_emit_def Let_def)

lemma symtab_emit: "gen_symtab (codegen_emit gen opc opnd) = gen_symtab gen"
  by (simp add: codegen_emit_def Let_def)

lemma instrs_patch:
  "instrs (codegen_patch_jump gen i target)
     = (if 0 \<le> i \<and> i < count gen
        then (instrs gen)[nat i := (instrs gen ! nat i)\<lparr>operand := target\<rparr>]
        else instrs gen)"
  by (simp add: codegen_patch_jump_def instrs_def Let_def)

lemma count_patch: "count (codegen_patch_jump gen i target) = count gen"
  by (simp add: count_instrs instrs_patch)

lemma labels_patch:
  "gen_loop_break_label (codegen_patch_jump gen i target) = gen_loop_break_label gen"
  "gen_loop_continue_label (codegen_patch_jump gen i target) = gen_loop_continue_label gen"
  by (simp_all add: codegen_patch_jump_def Let_def)

lemma symtab_patch: "gen_symtab (codegen_patch_jump gen i target) = gen_symtab gen"
  by (simp add: codegen_patch_jump_def Let_def)

lemma new_label_facts:
  "instrs (snd (codegen_new_label gen)) = instrs gen"
  "count (snd (codegen_new_label gen)) = count gen"
  "gen_loop_break_label (snd (codegen_new_label gen)) = gen_loop_break_label gen"
  "gen_loop_continue_label (snd (codegen_new_label gen)) = gen_loop_continue_label gen"
  "gen_symtab (snd (codegen_new_label gen)) = gen_symtab gen"
  by (simp_all add: codegen_new_label_def instrs_def count_def)

lemma error_facts:
  "instrs (codegen_error gen msg) = instrs gen"
  "count (codegen_error gen msg) = count gen"
  "gen_loop_break_label (codegen_error gen msg) = gen_loop_break_label gen"
  "gen_loop_continue_label (codegen_error gen msg) = gen_loop_continue_label gen"
  "gen_symtab (codegen_error gen msg) = gen_symtab gen"
  by (simp_all add: codegen_error_def instrs_def count_def)

lemma label_update_facts:
  "instrs (gen\<lparr>gen_loop_break_label := b\<rparr>) = instrs gen"
  "instrs (gen\<lparr>gen_loop_continue_label := c\<rparr>) = instrs gen"
  "count (gen\<lparr>gen_loop_break_label := b\<rparr>) = count gen"
  "count (gen\<lparr>gen_loop_continue_label := c\<rparr>) = count gen"
  by (simp_all add: instrs_def count_def)

subsection \<open>Jump targets\<close>

definition is_jump :: "opcode_t \<Rightarrow> bool" where
  "is_jump opc \<longleftrightarrow> opc = OP_JMP \<or> opc = OP_JZ \<or> opc = OP_JNZ"

text \<open>Every jump instruction of the list has an operand in \<open>[0, bound)\<close>.\<close>

definition jumps_below :: "int \<Rightarrow> instruction_t list \<Rightarrow> bool" where
  "jumps_below bound is \<longleftrightarrow>
     list_all (\<lambda>ins. is_jump (opcode ins) \<longrightarrow> 0 \<le> operand ins \<and> operand ins < bound) is"

text \<open>
  The invariant of a generator between two steps: every jump emitted so far targets an
  index that exists or is the next one to be emitted, and so do the two loop labels
  (which are \<open>-1\<close> outside a loop).
\<close>

definition gen_inv :: "codegen_t \<Rightarrow> bool" where
  "gen_inv gen \<longleftrightarrow>
     jumps_below (count gen + 1) (instrs gen)
     \<and> gen_loop_break_label gen \<le> count gen
     \<and> gen_loop_continue_label gen \<le> count gen"

lemma jumps_below_iff:
  "jumps_below b is \<longleftrightarrow>
     (\<forall>ins \<in> set is. is_jump (opcode ins) \<longrightarrow> 0 \<le> operand ins \<and> operand ins < b)"
  by (simp add: jumps_below_def list_all_iff)

lemma jumps_below_mono: "jumps_below b is \<Longrightarrow> b \<le> b' \<Longrightarrow> jumps_below b' is"
  by (fastforce simp: jumps_below_iff)

lemma jumps_below_append:
  "jumps_below b (is @ js) \<longleftrightarrow> jumps_below b is \<and> jumps_below b js"
  by (simp add: jumps_below_def)

lemma jumps_below_update:
  assumes "jumps_below b is" and "0 \<le> t" and "t < b"
  shows "jumps_below b (is[i := (is ! i)\<lparr>operand := t\<rparr>])"
proof -
  have "0 \<le> operand ins \<and> operand ins < b"
    if "ins \<in> set (is[i := (is ! i)\<lparr>operand := t\<rparr>])" and "is_jump (opcode ins)" for ins
  proof -
    from that(1) have "ins \<in> set is \<or> ins = (is ! i)\<lparr>operand := t\<rparr>"
      using set_update_subset_insert [of "is" i] by auto
    then show ?thesis
    proof
      assume "ins \<in> set is"
      with assms(1) that(2) show ?thesis by (simp add: jumps_below_iff)
    next
      assume "ins = (is ! i)\<lparr>operand := t\<rparr>"
      with assms(2,3) show ?thesis by simp
    qed
  qed
  then show ?thesis by (simp add: jumps_below_iff)
qed

lemma gen_inv_create: "gen_inv (codegen_create symtab)"
  by (simp add: gen_inv_def jumps_below_def count_def instrs_def codegen_create_def
      code_buffer_create_def)

lemma gen_inv_emit:
  assumes "gen_inv gen" and "is_jump opc \<longrightarrow> 0 \<le> opnd \<and> opnd \<le> count gen + 1"
  shows "gen_inv (codegen_emit gen opc opnd)"
proof -
  from assms(1) have old: "jumps_below (count gen + 2) (instrs gen)"
    by (auto simp: gen_inv_def intro: jumps_below_mono)
  from assms(2) have new:
    "jumps_below (count gen + 2) [\<lparr>opcode = opc, operand = opnd, label = [], comment = []\<rparr>]"
    by (auto simp: jumps_below_iff)
  from assms(1) old new show ?thesis
    by (simp add: gen_inv_def count_emit instrs_emit labels_emit jumps_below_append
        add.commute)
qed

lemma gen_inv_patch:
  assumes "gen_inv gen" and "0 \<le> t" and "t \<le> count gen"
  shows "gen_inv (codegen_patch_jump gen i t)"
  using assms
  by (auto simp: gen_inv_def count_patch instrs_patch labels_patch intro: jumps_below_update)

lemma gen_inv_new_label: "gen_inv (snd (codegen_new_label gen)) = gen_inv gen"
  by (simp add: gen_inv_def new_label_facts)

lemma gen_inv_error: "gen_inv (codegen_error gen msg) = gen_inv gen"
  by (simp add: gen_inv_def error_facts)

lemma gen_inv_labels:
  assumes "gen_inv gen" and "b \<le> count gen" and "c \<le> count gen"
  shows "gen_inv (gen\<lparr>gen_loop_break_label := b, gen_loop_continue_label := c\<rparr>)"
    and "gen_inv (gen\<lparr>gen_loop_break_label := b\<rparr>)"
    and "gen_inv (gen\<lparr>gen_loop_continue_label := c\<rparr>)"
  using assms by (simp_all add: gen_inv_def count_def instrs_def)

lemma count_nonneg: "0 \<le> count gen"
  by (simp add: count_def)

text \<open>One generation step from \<open>gen\<close> to \<open>gen'\<close>: the invariant holds again, nothing was
  removed, and the symbol table was only read.\<close>

definition step_ok :: "codegen_t \<Rightarrow> codegen_t \<Rightarrow> bool" where
  "step_ok gen gen' \<longleftrightarrow>
     gen_inv gen' \<and> count gen \<le> count gen' \<and> gen_symtab gen' = gen_symtab gen"

lemma step_ok_refl: "gen_inv gen \<Longrightarrow> step_ok gen gen"
  by (simp add: step_ok_def)

lemma step_ok_trans: "step_ok a b \<Longrightarrow> step_ok b c \<Longrightarrow> step_ok a c"
  by (simp add: step_ok_def)

lemma step_ok_inv: "step_ok gen gen' \<Longrightarrow> gen_inv gen'"
  by (simp add: step_ok_def)

lemma step_ok_emit:
  "step_ok g0 gen \<Longrightarrow> is_jump opc \<longrightarrow> 0 \<le> opnd \<and> opnd \<le> count gen + 1
     \<Longrightarrow> step_ok g0 (codegen_emit gen opc opnd)"
  by (simp add: step_ok_def gen_inv_emit count_emit symtab_emit)

lemma step_ok_patch:
  "step_ok g0 gen \<Longrightarrow> 0 \<le> t \<Longrightarrow> t \<le> count gen
     \<Longrightarrow> step_ok g0 (codegen_patch_jump gen i t)"
  by (simp add: step_ok_def gen_inv_patch count_patch symtab_patch)

lemma step_ok_error: "step_ok g0 gen \<Longrightarrow> step_ok g0 (codegen_error gen msg)"
  by (simp add: step_ok_def gen_inv_error error_facts)

lemma step_ok_new_label: "step_ok g0 gen \<Longrightarrow> step_ok g0 (snd (codegen_new_label gen))"
  by (simp add: step_ok_def gen_inv_new_label new_label_facts)

lemma step_ok_emit_binary_op: "step_ok g0 gen \<Longrightarrow> step_ok g0 (emit_binary_op gen op)"
  by (simp add: emit_binary_op_def step_ok_emit is_jump_def)

lemma step_ok_emit_unary_op: "step_ok g0 gen \<Longrightarrow> step_ok g0 (emit_unary_op gen op)"
  by (simp add: emit_unary_op_def step_ok_emit is_jump_def)

lemma step_ok_labels:
  assumes "step_ok g0 gen" and "b \<le> count gen" and "c \<le> count gen"
  shows "step_ok g0 (gen\<lparr>gen_loop_break_label := b, gen_loop_continue_label := c\<rparr>)"
    and "step_ok g0 (gen\<lparr>gen_loop_break_label := b\<rparr>)"
    and "step_ok g0 (gen\<lparr>gen_loop_continue_label := c\<rparr>)"
  using assms by (simp_all add: step_ok_def gen_inv_labels count_def)

subsection \<open>Expressions and statements keep the invariant\<close>

lemma codegen_expression_step:
  "step_ok g0 gen \<Longrightarrow> codegen_expression gen node = Some gen' \<Longrightarrow> step_ok g0 gen'"
  "step_ok g0 gen \<Longrightarrow> codegen_expressions gen nodes = Some gen' \<Longrightarrow> step_ok g0 gen'"
proof (induction gen node and gen nodes arbitrary: gen' and gen'
    rule: codegen_expression_codegen_expressions.induct)
  case (1 gen)
  then show ?case by simp
next
  case (2 gen ty dt v name op left right extra children lv)
  note IH = "2.IH" and ok = "2.prems"(1) and run = "2.prems"(2)
  consider (num) "ty = NODE_NUMBER" | (ident) "ty = NODE_IDENTIFIER"
    | (bin) "ty = NODE_BINARY_OP" | (un) "ty = NODE_UNARY_OP" | (assign) "ty = NODE_ASSIGN"
    | (call) "ty = NODE_CALL" | (getpid) "ty = NODE_GETPID"
    | (other) "ty \<noteq> NODE_NUMBER" "ty \<noteq> NODE_IDENTIFIER" "ty \<noteq> NODE_BINARY_OP"
        "ty \<noteq> NODE_UNARY_OP" "ty \<noteq> NODE_ASSIGN" "ty \<noteq> NODE_CALL" "ty \<noteq> NODE_GETPID"
    by blast
  then show ?case
  proof cases
    case num
    with ok run show ?thesis
      by (auto simp: step_ok_emit is_jump_def)
  next
    case ident
    with ok run show ?thesis
      by (auto simp: node_type_defs step_ok_emit step_ok_error is_jump_def
          split: option.splits if_splits)
  next
    case bin
    with run obtain g1 g2 where l: "codegen_expression gen left = Some g1"
        and r: "codegen_expression g1 right = Some g2" and g: "gen' = emit_binary_op g2 op"
      by (auto simp: node_type_defs split: bind_splits)
    from IH(1) [OF _ _ _ ok l] bin have "step_ok g0 g1"
      by (simp add: node_type_defs)
    with IH(2) [OF _ _ _ l _ r] bin have "step_ok g0 g2"
      by (simp add: node_type_defs)
    with g show ?thesis
      by (simp add: step_ok_emit_binary_op)
  next
    case un
    with run obtain g1 where l: "codegen_expression gen left = Some g1"
        and g: "gen' = emit_unary_op g1 op"
      by (auto simp: node_type_defs split: bind_splits)
    from IH(3) [OF _ _ _ _ ok l] un have "step_ok g0 g1"
      by (simp add: node_type_defs)
    with g show ?thesis
      by (simp add: step_ok_emit_unary_op)
  next
    case assign
    with run obtain target where t: "left = Some target"
      by (auto simp: node_type_defs split: option.splits)
    show ?thesis
    proof (cases "symtab_lookup (gen_symtab gen) (node_name target)")
      case None
      with run assign t ok show ?thesis
        by (auto simp: node_type_defs step_ok_error)
    next
      case (Some sy)
      with run assign t obtain g1 where r: "codegen_expression gen right = Some g1"
          and g: "gen' = codegen_emit (codegen_emit g1 OP_DUP 0)
                    (if sym_scope_level sy = 0 then OP_STOREG else OP_STOREL) (sym_offset sy)"
        by (auto simp: node_type_defs Let_def split: bind_splits if_splits)
      from IH(4) assign t Some ok r have "step_ok g0 g1"
        by (simp add: node_type_defs)
      with g show ?thesis
        by (simp add: step_ok_emit is_jump_def)
    qed
  next
    case call
    with run obtain g1 where args: "codegen_expressions gen children = Some g1"
        and rest: "(case left of None \<Rightarrow> None
                    | Some callee \<Rightarrow>
                        (case symtab_lookup (gen_symtab g1) (node_name callee) of
                           None \<Rightarrow> Some (codegen_error g1 ''Undefined function'')
                         | Some sy \<Rightarrow> Some (codegen_emit g1 OP_CALL (sym_offset sy)))) = Some gen'"
      by (auto simp: node_type_defs split: bind_splits)
    from IH(5) [OF _ _ _ _ _ _ ok args] call have "step_ok g0 g1"
      by (simp add: node_type_defs)
    with rest show ?thesis
      by (auto simp: step_ok_emit step_ok_error is_jump_def split: option.splits)
  next
    case getpid
    with ok run show ?thesis
      by (auto simp: node_type_defs step_ok_emit is_jump_def)
  next
    case other
    with ok run show ?thesis
      by simp
  qed
next
  case (3 gen)
  then show ?case by simp
next
  case (4 gen child rest)
  then show ?case
    by (auto split: bind_splits)
qed

lemma step_ok_count: "step_ok a b \<Longrightarrow> count a \<le> count b"
  by (simp add: step_ok_def)

lemma gen_inv_break: "gen_inv gen \<Longrightarrow> gen_loop_break_label gen \<le> count gen"
  by (simp add: gen_inv_def)

lemma gen_inv_continue: "gen_inv gen \<Longrightarrow> gen_loop_continue_label gen \<le> count gen"
  by (simp add: gen_inv_def)

lemma codegen_statement_step:
  "step_ok g0 gen \<Longrightarrow> codegen_statement gen node = Some gen' \<Longrightarrow> step_ok g0 gen'"
  "step_ok g0 gen \<Longrightarrow> codegen_statements gen nodes = Some gen' \<Longrightarrow> step_ok g0 gen'"
proof (induction gen node and gen nodes arbitrary: gen' g0 and gen' g0
    rule: codegen_statement_codegen_statements.induct)
  case (1 gen)
  then show ?case by simp
next
  case (2 gen ty dt v name op left right extra children lv)
  note IH = "2.IH" and ok = "2.prems"(1) and run = "2.prems"(2)
  from ok have inv: "gen_inv gen" by (rule step_ok_inv)
  then have self: "step_ok gen gen" by (rule step_ok_refl)
  have "step_ok gen gen'"
  proof -
    have unary: "step_ok gen gen'"
      if "codegen_statement gen (Some (Ast_node ty dt v name op left right extra children lv))
            = do { gen1 \<leftarrow> codegen_expression gen left; Some (codegen_emit gen1 opc 0) }"
        and "\<not> is_jump opc" for opc
    proof -
      from run that(1) obtain g1 where e: "codegen_expression gen left = Some g1"
          and g: "gen' = codegen_emit g1 opc 0"
        by (auto split: bind_splits)
      from codegen_expression_step(1) [OF self e] g that(2) show ?thesis
        by (simp add: step_ok_emit)
    qed
    consider (expr_stmt) "ty = NODE_EXPR_STMT" | (return_stmt) "ty = NODE_RETURN"
      | (if_stmt) "ty = NODE_IF" | (while_stmt) "ty = NODE_WHILE" | (for_stmt) "ty = NODE_FOR"
      | (break_stmt) "ty = NODE_BREAK" | (continue_stmt) "ty = NODE_CONTINUE"
      | (block_stmt) "ty = NODE_BLOCK" | (create_stmt) "ty = NODE_CREATE"
      | (resume_stmt) "ty = NODE_RESUME" | (suspend_stmt) "ty = NODE_SUSPEND"
      | (kill_stmt) "ty = NODE_KILL" | (sleep_stmt) "ty = NODE_SLEEP"
      | (yield_stmt) "ty = NODE_YIELD" | (wait_stmt) "ty = NODE_WAIT"
      | (signal_stmt) "ty = NODE_SIGNAL"
      | (other_stmt) "ty \<noteq> NODE_EXPR_STMT" "ty \<noteq> NODE_RETURN" "ty \<noteq> NODE_IF"
          "ty \<noteq> NODE_WHILE" "ty \<noteq> NODE_FOR" "ty \<noteq> NODE_BREAK" "ty \<noteq> NODE_CONTINUE"
          "ty \<noteq> NODE_BLOCK" "ty \<noteq> NODE_CREATE" "ty \<noteq> NODE_RESUME"
          "ty \<noteq> NODE_SUSPEND" "ty \<noteq> NODE_KILL" "ty \<noteq> NODE_SLEEP" "ty \<noteq> NODE_YIELD"
          "ty \<noteq> NODE_WAIT" "ty \<noteq> NODE_SIGNAL"
      by blast
    then show ?thesis
    proof cases
      case expr_stmt
      with run obtain g1 where e: "codegen_expression gen left = Some g1"
          and g: "gen' = codegen_emit g1 OP_POP 0"
        by (auto simp: node_type_defs split: bind_splits)
      from codegen_expression_step(1) [OF self e] g show ?thesis
        by (simp add: step_ok_emit is_jump_def)
    next
      case return_stmt
      with run obtain g1 where
          e: "(if left \<noteq> None then codegen_expression gen left
               else Some (codegen_emit gen OP_PUSH 0)) = Some g1"
          and g: "gen' = codegen_emit g1 OP_RET 0"
        by (auto simp: node_type_defs split: bind_splits)
      have "step_ok gen g1"
      proof (cases "left = None")
        case True
        with e have "g1 = codegen_emit gen OP_PUSH 0" by simp
        with self show ?thesis by (simp add: step_ok_emit is_jump_def)
      next
        case False
        with e have "codegen_expression gen left = Some g1" by simp
        with self show ?thesis by (rule codegen_expression_step(1))
      qed
      with g show ?thesis
        by (simp add: step_ok_emit is_jump_def)
    next
      case if_stmt
      define gen0 where "gen0 = snd (codegen_new_label (snd (codegen_new_label gen)))"
      from self have s0: "step_ok gen gen0"
        unfolding gen0_def by (intro step_ok_new_label)
      show ?thesis
      proof (cases "extra = None")
        case True
        with run if_stmt obtain g1 g3 where
            c: "codegen_expression gen0 left = Some g1"
            and t: "codegen_statement (codegen_emit g1 OP_JZ 0) right = Some g3"
            and g: "gen' = codegen_patch_jump g3 (count g1) (count g3)"
          by (auto simp: node_type_defs Let_def gen0_def split: bind_splits)
        from codegen_expression_step(1) [OF s0 c] have s1: "step_ok gen g1" .
        then have s2: "step_ok gen (codegen_emit g1 OP_JZ 0)"
          by (simp add: step_ok_emit count_nonneg)
        from IH(1) if_stmt c t s2 have s3: "step_ok gen g3"
          by (simp add: node_type_defs gen0_def)
        with g show ?thesis
          by (simp add: step_ok_patch count_nonneg)
      next
        case False
        with run if_stmt obtain g1 g3 g6 where
            c: "codegen_expression gen0 left = Some g1"
            and t: "codegen_statement (codegen_emit g1 OP_JZ 0) right = Some g3"
            and x: "codegen_statement
                      (codegen_patch_jump (codegen_emit g3 OP_JMP 0) (count g1)
                         (count (codegen_emit g3 OP_JMP 0))) extra = Some g6"
            and g: "gen' = codegen_patch_jump g6 (count g3) (count g6)"
          by (auto simp: node_type_defs Let_def gen0_def split: bind_splits)
        from codegen_expression_step(1) [OF s0 c] have s1: "step_ok gen g1" .
        then have s2: "step_ok gen (codegen_emit g1 OP_JZ 0)"
          by (simp add: step_ok_emit count_nonneg)
        from IH(1) if_stmt c t s2 have s3: "step_ok gen g3"
          by (simp add: node_type_defs gen0_def)
        then have s4: "step_ok gen (codegen_emit g3 OP_JMP 0)"
          by (simp add: step_ok_emit count_nonneg)
        then have s5: "step_ok gen (codegen_patch_jump (codegen_emit g3 OP_JMP 0) (count g1)
                         (count (codegen_emit g3 OP_JMP 0)))"
          by (simp add: step_ok_patch count_nonneg)
        from IH(2) if_stmt False c t x s5 have s6: "step_ok gen g6"
          by (simp add: node_type_defs gen0_def)
        with g show ?thesis
          by (simp add: step_ok_patch count_nonneg)
      qed
    next
      case while_stmt
      define gen0 where "gen0 = gen\<lparr>gen_loop_continue_label := count gen\<rparr>"
      have s0: "step_ok gen gen0"
        unfolding gen0_def by (rule step_ok_labels(3) [OF self gen_inv_break [OF inv] order_refl])
      from run while_stmt obtain g1 g3 where
          c: "codegen_expression gen0 left = Some g1"
          and b: "codegen_statement (codegen_emit g1 OP_JZ 0) right = Some g3"
          and g: "gen' = (codegen_patch_jump (codegen_emit g3 OP_JMP (count gen)) (count g1)
                     (count (codegen_emit g3 OP_JMP (count gen))))
                   \<lparr>gen_loop_break_label := gen_loop_break_label gen,
                     gen_loop_continue_label := gen_loop_continue_label gen\<rparr>"
        by (auto simp: node_type_defs Let_def gen0_def split: bind_splits)
      from codegen_expression_step(1) [OF s0 c] have s1: "step_ok gen g1" .
      then have s2: "step_ok gen (codegen_emit g1 OP_JZ 0)"
        by (simp add: step_ok_emit count_nonneg)
      from IH(3) while_stmt c b s2 have s3: "step_ok gen g3"
        by (simp add: node_type_defs gen0_def)
      then have s4: "step_ok gen (codegen_emit g3 OP_JMP (count gen))"
        using step_ok_count [OF s3] by (simp add: step_ok_emit count_nonneg)
      then have s5: "step_ok gen (codegen_patch_jump (codegen_emit g3 OP_JMP (count gen))
                       (count g1) (count (codegen_emit g3 OP_JMP (count gen))))"
        by (simp add: step_ok_patch count_nonneg)
      from step_ok_labels(1) [OF s5, of "gen_loop_break_label gen" "gen_loop_continue_label gen"]
        step_ok_count [OF s5] gen_inv_break [OF inv] gen_inv_continue [OF inv] g
      show ?thesis by simp
    next
      case for_stmt
      from run for_stmt obtain gen1 gen2 gen3 gen5 where
          a: "(if left \<noteq> None
               then do { g \<leftarrow> codegen_expression gen left; Some (codegen_emit g OP_POP 0) }
               else Some gen) = Some gen1"
          and b: "(if right \<noteq> None
               then do { g \<leftarrow> codegen_expression gen1 right;
                         let jz_index = count g;
                         let g1 = codegen_emit g OP_JZ 0;
                         Some (g1\<lparr>gen_loop_break_label := jz_index\<rparr>) }
               else Some gen1) = Some gen2"
          and c: "(case children of [] \<Rightarrow> Some gen2
                   | body # others \<Rightarrow> codegen_statement gen2 (Some body)) = Some gen3"
          and d: "(if extra \<noteq> None
               then do { g \<leftarrow> codegen_expression (gen3\<lparr>gen_loop_continue_label := count gen3\<rparr>) extra;
                         Some (codegen_emit g OP_POP 0) }
               else Some (gen3\<lparr>gen_loop_continue_label := count gen3\<rparr>)) = Some gen5"
          and g: "(if right \<noteq> None \<and> gen_loop_break_label (codegen_emit gen5 OP_JMP (count gen1)) \<ge> 0
                      then codegen_patch_jump (codegen_emit gen5 OP_JMP (count gen1))
                             (gen_loop_break_label (codegen_emit gen5 OP_JMP (count gen1)))
                             (count (codegen_emit gen5 OP_JMP (count gen1)))
                      else codegen_emit gen5 OP_JMP (count gen1))
                   \<lparr>gen_loop_break_label := gen_loop_break_label gen,
                     gen_loop_continue_label := gen_loop_continue_label gen\<rparr> = gen'"
        by (simp add: node_type_defs Let_def bind_eq_Some_conv) blast
      have s1: "step_ok gen gen1"
      proof (cases "left = None")
        case True
        with a self show ?thesis by simp
      next
        case False
        with a obtain g1 where e: "codegen_expression gen left = Some g1"
            and g1: "gen1 = codegen_emit g1 OP_POP 0"
          by (auto split: bind_splits)
        from codegen_expression_step(1) [OF self e] g1 show ?thesis
          by (simp add: step_ok_emit is_jump_def)
      qed
      have chain: "step_ok k gen5" if k: "step_ok k gen1" for k
      proof -
        have k2: "step_ok k gen2"
        proof (cases "right = None")
          case True
          with b k show ?thesis by simp
        next
          case False
          with b obtain g1 where e: "codegen_expression gen1 right = Some g1"
              and g2: "gen2 = (codegen_emit g1 OP_JZ 0)\<lparr>gen_loop_break_label := count g1\<rparr>"
            by (auto simp: Let_def split: bind_splits)
          from codegen_expression_step(1) [OF k e]
          have "step_ok k (codegen_emit g1 OP_JZ 0)"
            by (simp add: step_ok_emit count_nonneg)
          from step_ok_labels(2) [OF this, of "count g1" "count g1"] g2
          show ?thesis by (simp add: count_emit)
        qed
        have k3: "step_ok k gen3"
        proof (cases children)
          case Nil
          with c k2 show ?thesis by simp
        next
          case (Cons body others)
          with c have r: "codegen_statement gen2 (Some body) = Some gen3" by simp
          from IH(4) for_stmt a b Cons k2 r show ?thesis
            by (simp add: node_type_defs)
        qed
        have k4: "step_ok k (gen3\<lparr>gen_loop_continue_label := count gen3\<rparr>)"
          by (rule step_ok_labels(3) [OF k3 gen_inv_break [OF step_ok_inv [OF k3]] order_refl])
        show ?thesis
        proof (cases "extra = None")
          case True
          with d k4 show ?thesis by auto
        next
          case False
          with d obtain g1 where
              e: "codegen_expression (gen3\<lparr>gen_loop_continue_label := count gen3\<rparr>) extra = Some g1"
              and g5: "gen5 = codegen_emit g1 OP_POP 0"
            by (auto split: bind_splits)
          from codegen_expression_step(1) [OF k4 e] g5 show ?thesis
            by (simp add: step_ok_emit is_jump_def)
        qed
      qed
      from chain [OF s1] have s5: "step_ok gen gen5" .
      from chain [OF step_ok_refl [OF step_ok_inv [OF s1]]] have "count gen1 \<le> count gen5"
        by (rule step_ok_count)
      with s5 have s6: "step_ok gen (codegen_emit gen5 OP_JMP (count gen1))"
        by (simp add: step_ok_emit count_nonneg)
      then have s7: "step_ok gen (codegen_patch_jump (codegen_emit gen5 OP_JMP (count gen1)) i
                       (count (codegen_emit gen5 OP_JMP (count gen1))))" for i
        by (simp add: step_ok_patch count_nonneg)
      define gen7 where "gen7 = (if right \<noteq> None \<and> gen_loop_break_label (codegen_emit gen5 OP_JMP (count gen1)) \<ge> 0
                      then codegen_patch_jump (codegen_emit gen5 OP_JMP (count gen1))
                             (gen_loop_break_label (codegen_emit gen5 OP_JMP (count gen1)))
                             (count (codegen_emit gen5 OP_JMP (count gen1)))
                      else codegen_emit gen5 OP_JMP (count gen1))"
      from s6 s7 have s8: "step_ok gen gen7" by (simp add: gen7_def)
      from step_ok_labels(1) [OF s8, of "gen_loop_break_label gen" "gen_loop_continue_label gen"]
        step_ok_count [OF s8] gen_inv_break [OF inv] gen_inv_continue [OF inv] g [symmetric]
      show ?thesis by (simp add: gen7_def)
    next
      case break_stmt
      with run have "gen' = (if gen_loop_break_label gen \<ge> 0
          then codegen_emit gen OP_JMP (gen_loop_break_label gen) else gen)"
        by (simp add: node_type_defs split: if_splits)
      with self gen_inv_break [OF inv] show ?thesis
        by (simp add: step_ok_emit)
    next
      case continue_stmt
      with run have "gen' = (if gen_loop_continue_label gen \<ge> 0
          then codegen_emit gen OP_JMP (gen_loop_continue_label gen) else gen)"
        by (simp add: node_type_defs split: if_splits)
      with self gen_inv_continue [OF inv] show ?thesis
        by (simp add: step_ok_emit)
    next
      case block_stmt
      with run have "codegen_statements gen children = Some gen'"
        by (simp add: node_type_defs)
      with IH(5) block_stmt self show ?thesis
        by (simp add: node_type_defs)
    next
      case create_stmt
      with run obtain g1 where e: "codegen_expressions gen children = Some g1"
          and g: "gen' = codegen_emit g1 OP_CREATE (int (length children))"
        by (auto simp: node_type_defs split: bind_splits)
      from codegen_expression_step(2) [OF self e] g show ?thesis
        by (simp add: step_ok_emit is_jump_def)
    next
      case resume_stmt
      then show ?thesis
        by (intro unary [of OP_RESUME]) (simp_all add: node_type_defs is_jump_def)
    next
      case suspend_stmt
      then show ?thesis
        by (intro unary [of OP_SUSPEND]) (simp_all add: node_type_defs is_jump_def)
    next
      case kill_stmt
      then show ?thesis
        by (intro unary [of OP_KILL]) (simp_all add: node_type_defs is_jump_def)
    next
      case sleep_stmt
      then show ?thesis
        by (intro unary [of OP_SLEEP]) (simp_all add: node_type_defs is_jump_def)
    next
      case yield_stmt
      with run have "gen' = codegen_emit gen OP_YIELD 0"
        by (simp add: node_type_defs)
      with self show ?thesis
        by (simp add: step_ok_emit is_jump_def)
    next
      case wait_stmt
      then show ?thesis
        by (intro unary [of OP_WAIT]) (simp_all add: node_type_defs is_jump_def)
    next
      case signal_stmt
      then show ?thesis
        by (intro unary [of OP_SIGNAL]) (simp_all add: node_type_defs is_jump_def)
    next
      case other_stmt
      with run self show ?thesis by simp
    qed
  qed
  with ok show ?case by (rule step_ok_trans)
next
  case (3 gen)
  then show ?case by simp
next
  case (4 gen child rest)
  from "4.prems"(2) obtain g1 where a: "codegen_statement gen (Some child) = Some g1"
      and b: "codegen_statements g1 rest = Some gen'"
    by (auto split: bind_splits)
  from "4.IH"(1) [OF "4.prems"(1) a] have "step_ok g0 g1" .
  from "4.IH"(2) [OF a this b] show ?case .
qed

subsection \<open>Functions and programs\<close>

lemma jumps_below_label:
  "jumps_below b (xs[i := (xs ! i)\<lparr>label := l\<rparr>]) = jumps_below b xs"
proof (cases "i < length xs")
  case True
  have "opcode (xs[i := (xs ! i)\<lparr>label := l\<rparr>] ! n) = opcode (xs ! n)
      \<and> operand (xs[i := (xs ! i)\<lparr>label := l\<rparr>] ! n) = operand (xs ! n)" for n
    using True by (cases "n = i") simp_all
  then show ?thesis
    by (simp add: jumps_below_def list_all_length)
next
  case False
  then have "xs[i := (xs ! i)\<lparr>label := l\<rparr>] = xs"
    by (intro list_update_beyond) simp
  then show ?thesis by simp
qed

lemma step_ok_emit_label: "step_ok g0 gen \<Longrightarrow> step_ok g0 (codegen_emit_label gen lbl)"
proof -
  assume ok: "step_ok g0 gen"
  define gen1 where "gen1 = codegen_emit gen OP_NOP 0"
  from ok have e: "step_ok g0 gen1"
    by (simp add: gen1_def step_ok_emit is_jump_def)
  have pos: "count gen1 > 0"
    using count_nonneg [of gen] by (simp add: gen1_def count_emit)
  have "codegen_emit_label gen lbl =
      gen1\<lparr>gen_code := (gen_code gen1)\<lparr>cb_instructions :=
        (cb_instructions (gen_code gen1))[length (cb_instructions (gen_code gen1)) - 1 :=
          (cb_instructions (gen_code gen1) ! (length (cb_instructions (gen_code gen1)) - 1))
            \<lparr>label := strncpy lbl 63\<rparr>]\<rparr>\<rparr>"
    using pos unfolding codegen_emit_label_def Let_def gen1_def [symmetric] by simp
  with e show ?thesis
    by (simp add: step_ok_def gen_inv_def count_def instrs_def jumps_below_label)
qed

lemma codegen_function_step:
  assumes "step_ok g0 gen" and "codegen_function gen node = Some gen'"
  shows "step_ok g0 gen'"
proof (cases node)
  case None
  with assms show ?thesis by (simp add: codegen_function_def)
next
  case (Some n)
  define gen1 where "gen1 = codegen_emit_label gen (take 63 (''func_'' @ c_str (node_name n)))"
  from assms(1) have s1: "step_ok g0 gen1"
    unfolding gen1_def by (rule step_ok_emit_label)
  have "codegen_function gen (Some n) =
      do { gen2 \<leftarrow> (if node_left n \<noteq> None then codegen_statement gen1 (node_left n)
                      else Some gen1);
           Some (codegen_emit (codegen_emit gen2 OP_PUSH 0) OP_RET 0) }"
    by (simp only: codegen_function_def Let_def gen1_def option.case)
  with assms(2) Some obtain gen2 where
      b: "(if node_left n \<noteq> None then codegen_statement gen1 (node_left n) else Some gen1)
            = Some gen2"
      and g: "gen' = codegen_emit (codegen_emit gen2 OP_PUSH 0) OP_RET 0"
    by (auto split: bind_splits)
  have "step_ok g0 gen2"
  proof (cases "node_left n = None")
    case True
    with b s1 show ?thesis by simp
  next
    case False
    with b have "codegen_statement gen1 (node_left n) = Some gen2" by simp
    from codegen_statement_step(1) [OF s1 this] show ?thesis .
  qed
  with g show ?thesis
    by (simp add: step_ok_emit is_jump_def)
qed

lemma codegen_functions_step:
  "step_ok g0 gen \<Longrightarrow> codegen_functions gen nodes = Some gen' \<Longrightarrow> step_ok g0 gen'"
proof (induction nodes arbitrary: gen)
  case Nil
  then show ?case by simp
next
  case (Cons child rest)
  show ?case
  proof (cases "node_type child = NODE_FUNCTION \<or> node_type child = NODE_PROCESS")
    case True
    with Cons.prems(2) obtain g1 where a: "codegen_function gen (Some child) = Some g1"
        and b: "codegen_functions g1 rest = Some gen'"
      by (auto split: bind_splits)
    from codegen_function_step [OF Cons.prems(1) a] have "step_ok g0 g1" .
    from Cons.IH [OF this b] show ?thesis .
  next
    case False
    with Cons.prems(2) have "codegen_functions gen rest = Some gen'" by simp
    from Cons.IH [OF Cons.prems(1) this] show ?thesis .
  qed
qed

text \<open>
  A generator whose program is closed: every jump targets an existing instruction.
\<close>

definition jumps_valid :: "codegen_t \<Rightarrow> bool" where
  "jumps_valid gen \<longleftrightarrow> jumps_below (count gen) (instrs gen)"


lemma codegen_program_closed:
  assumes "gen_inv gen" and "jumps_valid gen" and "codegen_program gen node = Some gen'"
  shows "jumps_valid gen'"
proof (cases "\<exists>n. node = Some n \<and> node_type n = NODE_PROGRAM")
  case False
  with assms show ?thesis
    by (auto simp: codegen_program_def split: option.splits)
next
  case True
  then obtain n where n: "node = Some n" "node_type n = NODE_PROGRAM" by blast
  with assms(3) obtain g1 where a: "codegen_functions gen (node_children n) = Some g1"
      and g: "gen' = codegen_emit g1 OP_HALT 0"
    by (auto simp: codegen_program_def split: bind_splits)
  from codegen_functions_step [OF step_ok_refl [OF assms(1)] a]
  have "gen_inv g1" by (rule step_ok_inv)
  then have "jumps_below (count g1 + 1) (instrs g1)" by (simp add: gen_inv_def)
  moreover have "jumps_below (count g1 + 1)
      [\<lparr>opcode = OP_HALT, operand = 0, label = [], comment = []\<rparr>]"
    by (simp add: jumps_below_def is_jump_def)
  ultimately show ?thesis using g
    by (simp add: jumps_valid_def count_emit instrs_emit jumps_below_append)
qed

text \<open>
  The program \<^verbatim>\<open>void f(){ for (;1;) { if (1) break; else continue; } while (0) { yield; } }\<close>
  as a tree: the body of a function is its \<^verbatim>\<open>left\<close> child, a block; the \<^verbatim>\<open>for\<close>
  statement keeps its condition in \<^verbatim>\<open>right\<close> and its body as first child.
\<close>

definition loops_program :: ast_node_t where
  "loops_program =
     stmt_node NODE_PROGRAM None None None
       [function_node ''f''
          (stmt_node NODE_BLOCK None None None
             [stmt_node NODE_FOR None (Some (number_node 1 ''1'')) None
                [stmt_node NODE_BLOCK None None None
                   [stmt_node NODE_IF (Some (number_node 1 ''1''))
                      (Some (stmt_node NODE_BREAK None None None []))
                      (Some (stmt_node NODE_CONTINUE None None None [])) []]],
              stmt_node NODE_WHILE (Some (number_node 0 ''0''))
                (Some (stmt_node NODE_BLOCK None None None
                   [stmt_node NODE_YIELD None None None []])) None []])]"

lemma loops_program_code:
  "map_option (\<lambda>r. (fst r, map (\<lambda>ins. (opcode ins, operand ins)) (instrs (snd r))))
     (codegen_generate (codegen_create symtab_create) (Some loops_program))
   = Some (True,
       [(OP_NOP, 0), (OP_PUSH, 1), (OP_JZ, 8), (OP_PUSH, 1), (OP_JZ, 7), (OP_JMP, 2),
        (OP_JMP, 7), (OP_JMP, 1), (OP_PUSH, 0), (OP_JZ, 12), (OP_YIELD, 0), (OP_JMP, 8),
        (OP_PUSH, 0), (OP_RET, 0), (OP_HALT, 0)])"
  by code_simp

text \<open>
  Claim C5. Whenever \<open>codegen_generate\<close>, started on a fresh generator, returns (with
  either flag), every \<^verbatim>\<open>JMP\<close>, \<^verbatim>\<open>JZ\<close> and \<^verbatim>\<open>JNZ\<close> instruction of the resulting buffer has an
  operand in \<open>[0, count)\<close>, \<open>count\<close> being the final number of instructions.
\<close>

theorem codegen_generate_jumps_valid:
  assumes "codegen_generate (codegen_create symtab) ast = Some (ok, gen)"
  shows "\<forall>ins \<in> set (cb_instructions (gen_code gen)).
           opcode ins = OP_JMP \<or> opcode ins = OP_JZ \<or> opcode ins = OP_JNZ
           \<longrightarrow> 0 \<le> operand ins \<and> operand ins < count gen"
proof -
  have start: "gen_inv (codegen_create symtab)" by (rule gen_inv_create)
  have empty: "jumps_valid (codegen_create symtab)"
    by (simp add: jumps_valid_def jumps_below_def instrs_def codegen_create_def
        code_buffer_create_def)
  have "jumps_valid gen"
  proof (cases ast)
    case None
    with assms empty show ?thesis by (simp add: codegen_generate_def)
  next
    case (Some n)
    with assms have "codegen_program (codegen_create symtab) ast = Some gen"
      by (auto simp: codegen_generate_def split: bind_splits)
    from codegen_program_closed [OF start empty this] show ?thesis .
  qed
  then show ?thesis
    by (simp add: jumps_valid_def jumps_below_def is_jump_def instrs_def list_all_iff)
qed

theorem codegen_generate_jumps_valid_witness:
  "\<exists>gen. codegen_generate (codegen_create symtab_create) (Some loops_program) = Some (True, gen)
     \<and> map (\<lambda>ins. (opcode ins, operand ins)) (cb_instructions (gen_code gen)) =
         [(OP_NOP, 0), (OP_PUSH, 1), (OP_JZ, 8), (OP_PUSH, 1), (OP_JZ, 7), (OP_JMP, 2),
          (OP_JMP, 7), (OP_JMP, 1), (OP_PUSH, 0), (OP_JZ, 12), (OP_YIELD, 0), (OP_JMP, 8),
          (OP_PUSH, 0), (OP_RET, 0), (OP_HALT, 0)]
     \<and> count gen = 15
     \<and> list_all (\<lambda>ins. opcode ins = OP_JMP \<or> opcode ins = OP_JZ \<or> opcode ins = OP_JNZ
           \<longrightarrow> 0 \<le> operand ins \<and> operand ins < 15) (cb_instructions (gen_code gen))"
proof -
  from loops_program_code obtain gen where
      run: "codegen_generate (codegen_create symtab_create) (Some loops_program) = Some (True, gen)"
      and code: "map (\<lambda>ins. (opcode ins, operand ins)) (instrs gen) =
         [(OP_NOP, 0), (OP_PUSH, 1), (OP_JZ, 8), (OP_PUSH, 1), (OP_JZ, 7), (OP_JMP, 2),
          (OP_JMP, 7), (OP_JMP, 1), (OP_PUSH, 0), (OP_JZ, 12), (OP_YIELD, 0), (OP_JMP, 8),
          (OP_PUSH, 0), (OP_RET, 0), (OP_HALT, 0)]"
    by auto
  from code have "length (map (\<lambda>ins. (opcode ins, operand ins)) (instrs gen)) = 15"
    by simp
  then have n: "count gen = 15" by (simp add: count_instrs)
  from codegen_generate_jumps_valid [OF run] n run code show ?thesis
    by (auto simp: list_all_iff instrs_def)
qed
section \<open>Properties of the lexer\<close>

text \<open>
  The tokens returned by \<open>n\<close> successive calls of \<^verbatim>\<open>lexer_next_token_ex\<close>, with the
  file-scope variables and the lexer after the last call.
\<close>

fun lexer_tokens ::
  "nat \<Rightarrow> lexer_statics \<Rightarrow> lexer_t \<Rightarrow> token_t list \<times> lexer_statics \<times> lexer_t" where
  "lexer_tokens 0 statics lexer = ([], statics, lexer)"
| "lexer_tokens (Suc n) statics lexer =
     (let r = lexer_next_token_ex statics lexer;
          rest = lexer_tokens n (fst (snd r)) (snd (snd r))
      in (fst r # fst rest, snd rest))"




text \<open>
  Two successive peeks return the same token, whatever the state.
\<close>

lemma lexer_peek_token_ex_twice:
  "fst (lexer_peek_token_ex (fst (snd (lexer_peek_token_ex statics lexer)))
          (snd (snd (lexer_peek_token_ex statics lexer))))
     = fst (lexer_peek_token_ex statics lexer)"
  by (simp add: lexer_peek_token_ex_def Let_def)

text \<open>
  After a first peek on a state without pushed-back token, \<^verbatim>\<open>lexer_next_token_ex\<close> scans
  the input behind the token that the peek returned.
\<close>

lemma lexer_next_after_peek:
  assumes "\<not> has_peek statics" and "\<not> has_unget statics"
  shows "fst (lexer_peek_token_ex statics lexer) = fst (scan_token lexer)"
    and "fst (lexer_next_token_ex (fst (snd (lexer_peek_token_ex statics lexer)))
               (snd (snd (lexer_peek_token_ex statics lexer))))
           = fst (scan_token (snd (scan_token lexer)))"
  using assms by (simp_all add: lexer_peek_token_ex_def lexer_next_token_ex_def Let_def)

text \<open>The state after \<^verbatim>\<open>lexer_init_ex\<close> on the source \<^verbatim>\<open>a b\<close>, and after one peek.\<close>

definition lexer_a_b :: lexer_t where
  "lexer_a_b = lexer_init_ex ''a b'' ''<stdin>''"

definition peeked_a_b :: "token_t \<times> lexer_statics \<times> lexer_t" where
  "peeked_a_b = lexer_peek_token_ex statics_init lexer_a_b"

text \<open>
  Claim C2. A peek is to return the next token without consuming it, so that the next
  call of \<^verbatim>\<open>lexer_next_token_ex\<close> returns that very token. The code breaks it:
  \<^verbatim>\<open>lexer_next_token_ex\<close> consults the unget buffer only and never \<^verbatim>\<open>has_peek\<close>. On the
  source \<^verbatim>\<open>a b\<close> the peek returns the identifier \<^verbatim>\<open>a\<close> (a second peek returns it again),
  and the following \<^verbatim>\<open>lexer_next_token_ex\<close> returns the identifier \<^verbatim>\<open>b\<close>: the token
  \<^verbatim>\<open>a\<close> is lost to the caller of next.
\<close>

theorem lexer_next_token_ex_ignores_peek:
  "tok_type (fst peeked_a_b) = TOKEN_IDENTIFIER
   \<and> tok_value (fst peeked_a_b) = ''a''
   \<and> tok_column (fst peeked_a_b) = 1
   \<and> has_peek (fst (snd peeked_a_b))
   \<and> fst (lexer_peek_token_ex (fst (snd peeked_a_b)) (snd (snd peeked_a_b))) = fst peeked_a_b
   \<and> tok_type (fst (lexer_next_token_ex (fst (snd peeked_a_b)) (snd (snd peeked_a_b))))
       = TOKEN_IDENTIFIER
   \<and> tok_value (fst (lexer_next_token_ex (fst (snd peeked_a_b)) (snd (snd peeked_a_b))))
       = ''b''
   \<and> tok_column (fst (lexer_next_token_ex (fst (snd peeked_a_b)) (snd (snd peeked_a_b))))
       = 3
   \<and> fst (lexer_next_token_ex (fst (snd peeked_a_b)) (snd (snd peeked_a_b)))
       \<noteq> fst peeked_a_b"
  by code_simp

text \<open>The first tokens of a source, each with its type, text, line and column.\<close>

definition token_places :: "nat \<Rightarrow> string \<Rightarrow> (token_type_t \<times> string \<times> int \<times> int) list" where
  "token_places n source =
     map (\<lambda>t. (tok_type t, tok_value t, tok_line t, tok_column t))
       (fst (lexer_tokens n statics_init (lexer_init_ex source ''<stdin>'')))"

text \<open>
  Claim C4. The line and column of a token are to be those of its first character. The
  code breaks it for operators and punctuation: \<^verbatim>\<open>lexer_next_token_ex\<close> saves the start
  in \<^verbatim>\<open>start_line\<close> and \<^verbatim>\<open>start_col\<close>, never reads them, and \<^verbatim>\<open>make_token\<close> stamps the
  token with the position the lexer has reached after the operator. In \<^verbatim>\<open>+\<close> the token
  \<^verbatim>\<open>+\<close> starts at column 1 and is reported at column 2; in \<^verbatim>\<open>x <<= y;\<close> the identifiers
  are reported at their first characters (columns 1 and 7) while \<^verbatim>\<open><<=\<close>, which starts at
  column 3, is reported at column 6, and \<^verbatim>\<open>;\<close>, at column 8, is reported at column 9.
\<close>

theorem operator_token_position_after_token:
  "token_places 1 ''+'' = [(TOKEN_PLUS, ''+'', 1, 2)]
   \<and> token_places 4 ''x <<= y;'' =
       [(TOKEN_IDENTIFIER, ''x'', 1, 1), (TOKEN_LSHIFT_ASSIGN, ''<<='', 1, 6),
        (TOKEN_IDENTIFIER, ''y'', 1, 7), (TOKEN_SEMICOLON, '';'', 1, 9)]"
  by code_simp

section \<open>Repeated runs\<close>






section \<open>Worked programs\<close>

text \<open>
  The tree of \<^verbatim>\<open>void f(){ if (1) return 2; else return 3; }\<close>: the function keeps its
  block in \<^verbatim>\<open>left\<close>; the \<^verbatim>\<open>if\<close> keeps the condition in \<^verbatim>\<open>left\<close>, the first branch in
  \<^verbatim>\<open>right\<close> and the \<^verbatim>\<open>else\<close> branch in \<^verbatim>\<open>extra\<close>.
\<close>

definition if_else_program :: ast_node_t where
  "if_else_program =
     stmt_node NODE_PROGRAM None None None
       [function_node ''f''
          (stmt_node NODE_BLOCK None None None
             [stmt_node NODE_IF (Some (number_node 1 ''1''))
                (Some (stmt_node NODE_RETURN (Some (number_node 2 ''2'')) None None []))
                (Some (stmt_node NODE_RETURN (Some (number_node 3 ''3'')) None None [])) []])]"

text \<open>
  Claim C1, as it holds. For \<^verbatim>\<open>void f(){ if (1) return 2; else return 3; }\<close> the
  generator emits exactly \<^verbatim>\<open>NOP 0; PUSH 1; JZ 6; PUSH 2; RET 0; JMP 8; PUSH 3; RET 0;
  PUSH 0; RET 0; HALT 0\<close>: the \<^verbatim>\<open>JZ\<close> of the condition is patched to 6, the index of the
  first instruction of the \<^verbatim>\<open>else\<close> branch (the patch is made after the \<^verbatim>\<open>JMP\<close> at index
  5 that ends the first branch has been emitted), and that \<^verbatim>\<open>JMP\<close> is patched to 8, the
  index after the \<^verbatim>\<open>else\<close> branch.
\<close>

theorem if_else_code:
  "code_of (compiler_generate (snd (compiler_analyze if_else_program)) if_else_program)
     = Some (True,
         [(OP_NOP, 0), (OP_PUSH, 1), (OP_JZ, 6), (OP_PUSH, 2), (OP_RET, 0), (OP_JMP, 8),
          (OP_PUSH, 3), (OP_RET, 0), (OP_PUSH, 0), (OP_RET, 0), (OP_HALT, 0)])"
  by code_simp

text \<open>The sequence of the claim as stated, with \<^verbatim>\<open>JZ 5\<close>, is not what is emitted.\<close>

theorem if_else_code_not_jz_5:
  "code_of (compiler_generate (snd (compiler_analyze if_else_program)) if_else_program)
     \<noteq> Some (True,
         [(OP_NOP, 0), (OP_PUSH, 1), (OP_JZ, 5), (OP_PUSH, 2), (OP_RET, 0), (OP_JMP, 8),
          (OP_PUSH, 3), (OP_RET, 0), (OP_PUSH, 0), (OP_RET, 0), (OP_HALT, 0)])"
  by code_simp

text \<open>
  The tree of \<^verbatim>\<open>void a(){} void b(){ a(); }\<close>: the call keeps the callee, an identifier,
  in \<^verbatim>\<open>left\<close> and has no argument.
\<close>

definition two_functions_program :: ast_node_t where
  "two_functions_program =
     stmt_node NODE_PROGRAM None None None
       [function_node ''a'' (stmt_node NODE_BLOCK None None None []),
        function_node ''b''
          (stmt_node NODE_BLOCK None None None
             [stmt_node NODE_EXPR_STMT
                (Some (stmt_node NODE_CALL (Some (identifier_node ''a'')) None None []))
                None None []])]"

text \<open>The offset and kind of the symbol that \<^verbatim>\<open>symtab_lookup\<close> finds.\<close>

definition symbol_place :: "symbol_table_t \<Rightarrow> string \<Rightarrow> (symbol_kind_t \<times> int) option" where
  "symbol_place t name = map_option (\<lambda>sy. (sym_kind sy, sym_offset sy)) (symtab_lookup t name)"

text \<open>
  Claim C3, as it holds. For \<^verbatim>\<open>void a(){} void b(){ a(); }\<close>, \<^verbatim>\<open>compiler_analyze\<close>
  succeeds and enters \<^verbatim>\<open>a\<close> and \<^verbatim>\<open>b\<close> as functions, both at offset 0:
  \<^verbatim>\<open>symtab_insert\<close> advances \<^verbatim>\<open>next_offset\<close> for variables and parameters only. The body
  of \<^verbatim>\<open>b\<close> emits \<^verbatim>\<open>CALL 0\<close>, the offset of \<^verbatim>\<open>a\<close>.
\<close>

theorem two_functions_offsets_and_call:
  "fst (compiler_analyze two_functions_program)
   \<and> symbol_place (snd (compiler_analyze two_functions_program)) ''a'' = Some (SYM_FUNCTION, 0)
   \<and> symbol_place (snd (compiler_analyze two_functions_program)) ''b'' = Some (SYM_FUNCTION, 0)
   \<and> sc_next_offset (st_current_scope (snd (compiler_analyze two_functions_program))) = 0
   \<and> code_of (compiler_generate (snd (compiler_analyze two_functions_program))
        two_functions_program)
     = Some (True,
         [(OP_NOP, 0), (OP_PUSH, 0), (OP_RET, 0),
          (OP_NOP, 0), (OP_CALL, 0), (OP_POP, 0), (OP_PUSH, 0), (OP_RET, 0), (OP_HALT, 0)])"
  by code_simp

text \<open>The offsets are not distinct, and \<^verbatim>\<open>b\<close> is not at offset 1.\<close>

theorem two_functions_offsets_not_distinct:
  "map_option snd (symbol_place (snd (compiler_analyze two_functions_program)) ''a'')
     = map_option snd (symbol_place (snd (compiler_analyze two_functions_program)) ''b'')
   \<and> map_option snd (symbol_place (snd (compiler_analyze two_functions_program)) ''b'')
     \<noteq> Some 1"
  by code_simp

end
